theory Spec2Isabelle
  imports Complex_Main "HOL-Library.Sublist"
begin

section \<open>Data model (src/src/index.ts, lines 1-55)\<close>

text \<open>
  The interfaces of the worker become records. A JavaScript \<open>number\<close> holding a
  similarity score or the threshold is modelled by the real number it denotes (the
  comparison \<open>a < b\<close> of two finite doubles is the comparison of these reals); counters are
  natural numbers. The one place where the code's own arithmetic leaves the finite numbers,
  the division \<open>stats.inserted / stats.received\<close>, is modelled with \<open>jsnumber\<close>.
  An embedding is the \<open>number[]\<close> the provider returns.
\<close>

type_synonym vector = "real list"

record Message =
  message_id :: string
  timestamp :: string
  content :: string
  platform_name :: string
  platform_user_id :: string
  platform_message_id :: string
  platform_message_url :: string

record BatchRequest =
  table_name :: string
  job_id :: string
  topic :: string
  industry :: string
  subindustry :: string
  similarity_search_score_threshold :: real
  filter_by :: "string list option"
  messages :: "Message list"

datatype jsnumber = Finite real | PosInfinity | NaN

record Stats =
  received :: nat
  inserted :: nat
  dropped :: nat
  insertion_rate :: jsnumber

record AcceptedMessage =
  out_message_id :: string
  out_content :: string

record ResponseData =
  r_table_name :: string
  r_job_id :: string
  r_topic :: string
  r_industry :: string
  r_subindustry :: string
  r_similarity_search_score_threshold :: real
  r_filter_by :: "string list"
  r_stats :: Stats
  r_non_duplicate_messages :: "AcceptedMessage list"

record BatchResponse =
  resp_status :: string
  resp_data :: ResponseData
  resp_message :: string

text \<open>A row of the target table: the thirteen columns of the INSERT statement (lines 257-261).\<close>

record StoredRecord =
  col_job_id :: string
  col_message_id :: string
  col_timestamp :: string
  col_topic :: string
  col_industry :: string
  col_subindustry :: string
  col_content :: string
  col_embedding :: vector
  col_similarity_search_score :: real
  col_platform_name :: string
  col_platform_user_id :: string
  col_platform_message_id :: string
  col_platform_message_url :: string

section \<open>The external collaborators\<close>

text \<open>
  Everything thrown inside \<open>processBatch\<close> is an \<open>error\<close> value: a rejected promise of
  the embedding provider, the \<open>TypeError\<close> of \<open>embedding.join\<close> on a missing vector, and
  a failing call of the database client.
\<close>

datatype error = ProviderError | TypeError | DatabaseError

text \<open>The elements of \<open>queryParams\<close> (\<open>any[]\<close>): text values and the embedding literal.\<close>

datatype param = PString string | PVector vector

text \<open>
  The calls the worker awaits, in the order it makes them. The world keeps the tables of the
  store (by table name) and the history of awaited calls, each with whether it succeeded.
\<close>

datatype call = DbConnect | AiRun "string list" | DbSelect | DbInsert StoredRecord | DbEnd

record World =
  tables :: "string \<Rightarrow> StoredRecord list"
  calls :: "(call \<times> bool) list"

text \<open>
  The environment fixes how the collaborators behave during a run, with no assumption on
  them: \<open>AI_run env n texts\<close> is what the provider answers when the \<open>n\<close>-th awaited call
  is \<open>env.AI.run\<close> on \<open>texts\<close> (an error, or any list of vectors, of any length);
  \<open>db_fails env n\<close> says that the \<open>n\<close>-th awaited call, a call of the database client,
  throws; \<open>cosine_distance env u v\<close> is the value of pgvector's \<open>u <=> v\<close> on the stored
  form of \<open>u\<close> and the query vector \<open>v\<close>.
\<close>

record Env =
  AI_run :: "nat \<Rightarrow> string list \<Rightarrow> error + vector list"
  db_fails :: "nat \<Rightarrow> bool"
  cosine_distance :: "vector \<Rightarrow> vector \<Rightarrow> real"
  DEDUP_AUTH_TOKEN :: string

definition record_call :: "call \<Rightarrow> bool \<Rightarrow> World \<Rightarrow> World" where
  "record_call c ok w = w\<lparr>calls := calls w @ [(c, ok)]\<rparr>"

definition dbClient_connect :: "Env \<Rightarrow> World \<Rightarrow> (error + unit) \<times> World" where
  "dbClient_connect env w =
     (if db_fails env (length (calls w)) then (Inl DatabaseError, record_call DbConnect False w)
      else (Inr (), record_call DbConnect True w))"

text \<open>\<open>dbClient.end()\<close> in the \<open>finally\<close> block (lines 331-337): its failure is only logged.\<close>

definition dbClient_end :: "Env \<Rightarrow> World \<Rightarrow> World" where
  "dbClient_end env w = record_call DbEnd (\<not> db_fails env (length (calls w))) w"

definition env_AI_run :: "Env \<Rightarrow> string list \<Rightarrow> World \<Rightarrow> (error + vector list) \<times> World" where
  "env_AI_run env texts w =
     (case AI_run env (length (calls w)) texts of
        Inl e \<Rightarrow> (Inl e, record_call (AiRun texts) False w)
      | Inr vs \<Rightarrow> (Inr vs, record_call (AiRun texts) True w))"

subsection \<open>The similarity query (lines 234-239)\<close>

text \<open>
  A condition \<open>(c, k)\<close> is the text \<open>c = $k\<close>; \<open>$k\<close> is the \<open>k\<close>-th element of the
  parameter list, counted from 1. Only the four text columns below occur in conditions.
\<close>

definition param_at :: "param list \<Rightarrow> nat \<Rightarrow> param option" where
  "param_at ps k = (if 1 \<le> k \<and> k \<le> length ps then Some (ps ! (k - 1)) else None)"

definition column :: "string \<Rightarrow> StoredRecord \<Rightarrow> string option" where
  "column c r =
     (if c = ''topic'' then Some (col_topic r)
      else if c = ''industry'' then Some (col_industry r)
      else if c = ''subindustry'' then Some (col_subindustry r)
      else if c = ''job_id'' then Some (col_job_id r)
      else None)"

definition satisfies :: "param list \<Rightarrow> StoredRecord \<Rightarrow> string \<times> nat \<Rightarrow> bool" where
  "satisfies ps r c =
     (case column (fst c) r of
        Some v \<Rightarrow> (case param_at ps (snd c) of Some (PString s) \<Rightarrow> v = s | _ \<Rightarrow> False)
      | None \<Rightarrow> False)"

text \<open>
  \<open>SELECT content, 1 - (embedding <=> $k::vector) AS similarity_score FROM t [WHERE c1 AND ...]
  ORDER BY embedding <=> $k::vector LIMIT 1\<close>: the rows satisfying every condition (all rows
  when there is none), by ascending distance, the first one only. The statement fails when
  \<open>$k\<close> is not a vector. The statement is evaluated as its text says, over the rows the
  table holds when it runs: the search is exact, and the one connection of a batch reads
  what its own earlier statements wrote.
\<close>

definition similarity_select ::
  "(vector \<Rightarrow> vector \<Rightarrow> real) \<Rightarrow> StoredRecord list \<Rightarrow> (string \<times> nat) list \<Rightarrow> nat \<Rightarrow> param list
     \<Rightarrow> error + (string \<times> real) list" where
  "similarity_select d rows conds k ps =
     (case param_at ps k of
        Some (PVector q) \<Rightarrow>
          Inr (map (\<lambda>r. (col_content r, 1 - d (col_embedding r) q))
                 (take 1 (sort_key (\<lambda>r. d (col_embedding r) q)
                            (filter (\<lambda>r. list_all (satisfies ps r) conds) rows))))
      | _ \<Rightarrow> Inl DatabaseError)"

definition dbClient_query_select ::
  "Env \<Rightarrow> string \<Rightarrow> (string \<times> nat) list \<Rightarrow> nat \<Rightarrow> param list \<Rightarrow> World
     \<Rightarrow> (error + (string \<times> real) list) \<times> World" where
  "dbClient_query_select env t conds k ps w =
     (if db_fails env (length (calls w)) then (Inl DatabaseError, record_call DbSelect False w)
      else (case similarity_select (cosine_distance env) (tables w t) conds k ps of
              Inl e \<Rightarrow> (Inl e, record_call DbSelect False w)
            | Inr rs \<Rightarrow> (Inr rs, record_call DbSelect True w)))"

text \<open>The INSERT statement (lines 255-278): one row appended; a failing statement writes nothing.\<close>

definition dbClient_query_insert ::
  "Env \<Rightarrow> string \<Rightarrow> StoredRecord \<Rightarrow> World \<Rightarrow> (error + unit) \<times> World" where
  "dbClient_query_insert env t row w =
     (if db_fails env (length (calls w)) then (Inl DatabaseError, record_call (DbInsert row) False w)
      else (Inr (), record_call (DbInsert row) True (w\<lparr>tables := (tables w)(t := tables w t @ [row])\<rparr>)))"

section \<open>processBatch (lines 147-338)\<close>

subsection \<open>Removal of exact duplicates (lines 167-176)\<close>

fun exact_loop :: "Message list \<Rightarrow> string set \<Rightarrow> Message list \<Rightarrow> Message list" where
  "exact_loop [] contentSet uniqueMessages = uniqueMessages"
| "exact_loop (msg # rest) contentSet uniqueMessages =
     (if content msg \<notin> contentSet
      then exact_loop rest (insert (content msg) contentSet) (uniqueMessages @ [msg])
      else exact_loop rest contentSet uniqueMessages)"

definition uniqueMessages :: "Message list \<Rightarrow> Message list" where
  "uniqueMessages ms = exact_loop ms {} []"

subsection \<open>Query conditions (lines 207-231)\<close>

record QueryBuilder =
  whereConditions :: "(string \<times> nat) list"
  queryParams :: "param list"
  paramIndex :: nat

definition push_condition :: "string \<Rightarrow> string \<Rightarrow> QueryBuilder \<Rightarrow> QueryBuilder" where
  "push_condition c v q =
     \<lparr>whereConditions = whereConditions q @ [(c, paramIndex q)],
      queryParams = queryParams q @ [PString v],
      paramIndex = paramIndex q + 1\<rparr>"

definition add_condition :: "BatchRequest \<Rightarrow> string \<Rightarrow> QueryBuilder \<Rightarrow> QueryBuilder" where
  "add_condition data field q =
     (if field = ''topic'' \<and> topic data \<noteq> [] then push_condition ''topic'' (topic data) q
      else if field = ''industry'' \<and> industry data \<noteq> [] then push_condition ''industry'' (industry data) q
      else if field = ''subindustry'' \<and> subindustry data \<noteq> []
        then push_condition ''subindustry'' (subindustry data) q
      else if field = ''job_id'' \<and> job_id data \<noteq> [] then push_condition ''job_id'' (job_id data) q
      else q)"

definition prepare_conditions :: "string list \<Rightarrow> BatchRequest \<Rightarrow> QueryBuilder" where
  "prepare_conditions fb data =
     fold (add_condition data) fb \<lparr>whereConditions = [], queryParams = [], paramIndex = 1\<rparr>"

subsection \<open>One message (lines 202-293)\<close>

record Locals =
  stats :: Stats
  nonDuplicateMessages :: "Message list"

definition stored_record :: "BatchRequest \<Rightarrow> Message \<Rightarrow> vector \<Rightarrow> real \<Rightarrow> StoredRecord" where
  "stored_record data message embedding similarityScore =
     \<lparr>col_job_id = job_id data,
      col_message_id = message_id message,
      col_timestamp = timestamp message,
      col_topic = topic data,
      col_industry = industry data,
      col_subindustry = subindustry data,
      col_content = content message,
      col_embedding = embedding,
      col_similarity_search_score = similarityScore,
      col_platform_name = platform_name message,
      col_platform_user_id = platform_user_id message,
      col_platform_message_id = platform_message_id message,
      col_platform_message_url = platform_message_url message\<rparr>"

text \<open>Lines 244-247: the score of the first returned row, 0 when no row is returned.\<close>

definition similarityScore_of :: "(string \<times> real) list \<Rightarrow> real" where
  "similarityScore_of rows = (case rows of [] \<Rightarrow> 0 | r # _ \<Rightarrow> snd r)"

definition process_message ::
  "Env \<Rightarrow> BatchRequest \<Rightarrow> string list \<Rightarrow> vector list \<Rightarrow> Message list \<Rightarrow> nat \<Rightarrow> Locals \<Rightarrow> World
     \<Rightarrow> (error + Locals) \<times> World" where
  "process_message env data fb embeddings batch j l w =
     (let message = batch ! j in
      if j < length embeddings then
        let embedding = embeddings ! j;
            q = prepare_conditions fb data
        in (case dbClient_query_select env (table_name data) (whereConditions q) (paramIndex q)
                   (queryParams q @ [PVector embedding]) w of
              (Inl e, w1) \<Rightarrow> (Inl e, w1)
            | (Inr rows, w1) \<Rightarrow>
                let similarityScore = similarityScore_of rows in
                if similarityScore < similarity_search_score_threshold data then
                  (case dbClient_query_insert env (table_name data)
                          (stored_record data message embedding similarityScore) w1 of
                     (Inl e, w2) \<Rightarrow> (Inl e, w2)
                   | (Inr _, w2) \<Rightarrow>
                       (Inr (l\<lparr>nonDuplicateMessages := nonDuplicateMessages l @ [message]\<rparr>), w2))
                else (Inr (l\<lparr>stats := (stats l)\<lparr>dropped := dropped (stats l) + 1\<rparr>\<rparr>), w1))
      else (Inl TypeError, w))"

subsection \<open>The two loops (lines 188-299)\<close>

function message_loop ::
  "Env \<Rightarrow> BatchRequest \<Rightarrow> string list \<Rightarrow> vector list \<Rightarrow> Message list \<Rightarrow> nat \<Rightarrow> Locals \<Rightarrow> World
     \<Rightarrow> (error + Locals) \<times> World" where
  "message_loop env data fb embeddings batch j l w =
     (if j < length batch then
        (case process_message env data fb embeddings batch j l w of
           (Inl e, w1) \<Rightarrow> (Inl e, w1)
         | (Inr l1, w1) \<Rightarrow> message_loop env data fb embeddings batch (j + 1) l1 w1)
      else (Inr l, w))"
  by pat_completeness auto
termination
  by (relation "measure (\<lambda>(env, data, fb, embeddings, batch, j, l, w). length batch - j)") auto

definition embeddingBatchSize :: nat where
  "embeddingBatchSize = 100"

definition process_chunk ::
  "Env \<Rightarrow> BatchRequest \<Rightarrow> string list \<Rightarrow> Message list \<Rightarrow> nat \<Rightarrow> Locals \<Rightarrow> World
     \<Rightarrow> (error + Locals) \<times> World" where
  "process_chunk env data fb um i l w =
     (let batch = take embeddingBatchSize (drop i um);
          contents = map content batch
      in (case env_AI_run env contents w of
            (Inl e, w1) \<Rightarrow> (Inl e, w1)
          | (Inr embeddings, w1) \<Rightarrow> message_loop env data fb embeddings batch 0 l w1))"

function chunk_loop ::
  "Env \<Rightarrow> BatchRequest \<Rightarrow> string list \<Rightarrow> Message list \<Rightarrow> nat \<Rightarrow> Locals \<Rightarrow> World
     \<Rightarrow> (error + Locals) \<times> World" where
  "chunk_loop env data fb um i l w =
     (if i < length um then
        (case process_chunk env data fb um i l w of
           (Inl e, w1) \<Rightarrow> (Inl e, w1)
         | (Inr l1, w1) \<Rightarrow> chunk_loop env data fb um (i + embeddingBatchSize) l1 w1)
      else (Inr l, w))"
  by pat_completeness auto
termination
  by (relation "measure (\<lambda>(env, data, fb, um, i, l, w). length um - i)")
     (auto simp: embeddingBatchSize_def)

subsection \<open>Statistics and response (lines 160-165, 178, 301-327)\<close>

text \<open>
  Line 303, \<open>stats.inserted / stats.received\<close>: the division of two counters as
  JavaScript computes it on IEEE-754 doubles. \<open>0 / 0\<close> is \<open>NaN\<close> and a positive number
  over 0 is \<open>Infinity\<close>. Otherwise the result is the double nearest to the quotient, ties
  going to the even mantissa: with \<open>e\<close> the exponent of the quotient
  (\<open>2^e \<le> a / b < 2^(e + 1)\<close>), the quotient is scaled by \<open>2^(52 - e)\<close>, rounded to an
  integer mantissa of 53 bits, and scaled back. The counters are array lengths, below
  \<open>2^53\<close>, so they are doubles themselves and the quotient of two positive ones is in the
  normal range: no overflow and no subnormal result occurs.
\<close>

fun bit_length :: "nat \<Rightarrow> nat" where
  "bit_length n = (if n = 0 then 0 else Suc (bit_length (n div 2)))"

definition round_half_even :: "nat \<Rightarrow> nat \<Rightarrow> nat" where
  "round_half_even p q =
     (let n = p div q; r = p mod q
      in if 2 * r < q then n else if q < 2 * r then n + 1 else if even n then n else n + 1)"

definition quotient_exponent :: "nat \<Rightarrow> nat \<Rightarrow> int" where
  "quotient_exponent a b =
     (let d = int (bit_length a) - int (bit_length b)
      in if (if 0 \<le> d then b * 2 ^ nat d \<le> a else b \<le> a * 2 ^ nat (- d)) then d else d - 1)"

definition quotient_mantissa :: "nat \<Rightarrow> nat \<Rightarrow> nat" where
  "quotient_mantissa a b =
     (let s = 52 - quotient_exponent a b
      in if 0 \<le> s then round_half_even (a * 2 ^ nat s) b
         else round_half_even a (b * 2 ^ nat (- s)))"

definition double_quotient :: "nat \<Rightarrow> nat \<Rightarrow> real" where
  "double_quotient a b =
     (if a = 0 then 0
      else real (quotient_mantissa a b) * 2 powi (quotient_exponent a b - 52))"

definition js_div :: "nat \<Rightarrow> nat \<Rightarrow> jsnumber" where
  "js_div a b =
     (if b = 0 then (if a = 0 then NaN else PosInfinity) else Finite (double_quotient a b))"

definition accepted_message :: "Message \<Rightarrow> AcceptedMessage" where
  "accepted_message msg = \<lparr>out_message_id = message_id msg, out_content = content msg\<rparr>"

definition success_response :: "BatchRequest \<Rightarrow> string list \<Rightarrow> Locals \<Rightarrow> BatchResponse" where
  "success_response data fb l =
     (let st1 = (stats l)\<lparr>inserted := length (nonDuplicateMessages l)\<rparr>;
          st2 = st1\<lparr>insertion_rate := js_div (inserted st1) (received st1)\<rparr>
      in \<lparr>resp_status = ''success'',
          resp_data =
            \<lparr>r_table_name = table_name data,
             r_job_id = job_id data,
             r_topic = topic data,
             r_industry = industry data,
             r_subindustry = subindustry data,
             r_similarity_search_score_threshold = similarity_search_score_threshold data,
             r_filter_by = fb,
             r_stats = st2,
             r_non_duplicate_messages = map accepted_message (nonDuplicateMessages l)\<rparr>,
          resp_message = ''Batch processing completed successfully''\<rparr>)"

definition initial_locals :: "BatchRequest \<Rightarrow> Locals" where
  "initial_locals data =
     (let st0 = \<lparr>received = length (messages data), inserted = 0, dropped = 0,
                 insertion_rate = Finite 0\<rparr>
      in \<lparr>stats = st0\<lparr>dropped := received st0 - length (uniqueMessages (messages data))\<rparr>,
          nonDuplicateMessages = []\<rparr>)"

definition processBatch ::
  "Env \<Rightarrow> BatchRequest \<Rightarrow> string list \<Rightarrow> World \<Rightarrow> (error + BatchResponse) \<times> World" where
  "processBatch env data fb w =
     (case dbClient_connect env w of
        (Inl e, w1) \<Rightarrow> (Inl e, dbClient_end env w1)
      | (Inr _, w1) \<Rightarrow>
          (case chunk_loop env data fb (uniqueMessages (messages data)) 0 (initial_locals data) w1 of
             (Inl e, w2) \<Rightarrow> (Inl e, dbClient_end env w2)
           | (Inr l, w2) \<Rightarrow> (Inr (success_response data fb l), dbClient_end env w2)))"

section \<open>The request handler (lines 59-145)\<close>

text \<open>
  The request as the handler reads it: the Authorization header, the request method
  (\<open>request.method\<close>), and the body,
  \<open>None\<close> when \<open>request.json()\<close> throws. The body has the type \<open>BatchRequest\<close>, so the
  threshold and the message array are present.
\<close>

record Request =
  authorization :: "string option"
  request_method :: string
  json :: "BatchRequest option"

datatype ResponseBody = ErrorBody string | ResultBody BatchResponse

record Response =
  http_status :: nat
  body :: ResponseBody

definition error_response :: "nat \<Rightarrow> string \<Rightarrow> Response" where
  "error_response code msg = \<lparr>http_status = code, body = ErrorBody msg\<rparr>"

text \<open>Line 124: \<open>data.filter_by || ["topic", "subindustry"]\<close>; every array is truthy.\<close>

definition resolved_filter_by :: "BatchRequest \<Rightarrow> string list" where
  "resolved_filter_by data =
     (case filter_by data of None \<Rightarrow> [''topic'', ''subindustry''] | Some fb \<Rightarrow> fb)"

definition authorized :: "Env \<Rightarrow> Request \<Rightarrow> bool" where
  "authorized env request =
     (case authorization request of
        None \<Rightarrow> False
      | Some authHeader \<Rightarrow>
          authHeader \<noteq> [] \<and> take 7 authHeader = ''Bearer '' \<and> drop 7 authHeader = DEDUP_AUTH_TOKEN env)"

definition fetch :: "Env \<Rightarrow> Request \<Rightarrow> World \<Rightarrow> Response \<times> World" where
  "fetch env request w =
     (if \<not> authorized env request then (error_response 401 ''Unauthorized'', w)
      else if request_method request \<noteq> ''POST'' then (error_response 405 ''Method not allowed'', w)
      else (case json request of
              None \<Rightarrow> (error_response 400 ''Invalid JSON'', w)
            | Some data \<Rightarrow>
                if table_name data = [] \<or> job_id data = [] \<or> topic data = [] \<or> industry data = []
                then (error_response 400 ''Missing required fields'', w)
                else (case processBatch env data (resolved_filter_by data) w of
                        (Inl e, w1) \<Rightarrow> (error_response 500 ''Internal server error'', w1)
                      | (Inr result, w1) \<Rightarrow> (\<lparr>http_status = 200, body = ResultBody result\<rparr>, w1))))"

section \<open>Notions used to state the properties\<close>

text \<open>The four field names the condition builder knows, and the request's value for each.\<close>

definition filterable_fields :: "string set" where
  "filterable_fields = {''topic'', ''industry'', ''subindustry'', ''job_id''}"

definition request_field :: "BatchRequest \<Rightarrow> string \<Rightarrow> string" where
  "request_field data c =
     (if c = ''topic'' then topic data
      else if c = ''industry'' then industry data
      else if c = ''subindustry'' then subindustry data
      else if c = ''job_id'' then job_id data
      else [])"

text \<open>
  What the condition builder maintains: the next placeholder number is one more than the
  number of parameters, and every condition names one of the four fields, non-empty on the
  request, with its placeholder bound to the request's value.
\<close>

definition builder_ok :: "BatchRequest \<Rightarrow> QueryBuilder \<Rightarrow> bool" where
  "builder_ok data q \<longleftrightarrow>
     paramIndex q = length (queryParams q) + 1 \<and>
     (\<forall>c \<in> set (whereConditions q).
        fst c \<in> filterable_fields \<and> request_field data (fst c) \<noteq> [] \<and>
        param_at (queryParams q) (snd c) = Some (PString (request_field data (fst c))))"

text \<open>
  The locals after the messages \<open>pre\<close> have gone through the gate, starting from \<open>l0\<close>:
  the accepted ones, a subsequence of \<open>pre\<close>, are appended, every other one is counted
  as dropped, and nothing else changes.
\<close>

definition counted :: "Locals \<Rightarrow> Message list \<Rightarrow> Locals \<Rightarrow> bool" where
  "counted l0 pre l \<longleftrightarrow>
     (\<exists>acc. nonDuplicateMessages l = nonDuplicateMessages l0 @ acc \<and> subseq acc pre \<and>
        stats l = (stats l0)\<lparr>dropped := dropped (stats l0) + (length pre - length acc)\<rparr>)"

text \<open>
  A stored row is in the scope of a request when it agrees with the request on every field
  of \<open>filter_by\<close> that is one of the four known fields and non-empty on the request.
\<close>

definition in_scope :: "string list \<Rightarrow> BatchRequest \<Rightarrow> StoredRecord \<Rightarrow> bool" where
  "in_scope fb data r \<longleftrightarrow>
     (\<forall>c \<in> set fb. c \<in> filterable_fields \<and> request_field data c \<noteq> []
        \<longrightarrow> column c r = Some (request_field data c))"

text \<open>The \<open>similarity_score\<close> the SELECT computes for a stored row and a query vector.\<close>

definition similarity :: "Env \<Rightarrow> StoredRecord \<Rightarrow> vector \<Rightarrow> real" where
  "similarity env r q = 1 - cosine_distance env (col_embedding r) q"

text \<open>
  The rows \<open>new\<close> appended after \<open>old\<close> respect the gate: each is in scope and, against
  every in-scope row stored before it (old or new), scores below the threshold.
\<close>

definition gate_respected ::
  "Env \<Rightarrow> BatchRequest \<Rightarrow> string list \<Rightarrow> StoredRecord list \<Rightarrow> StoredRecord list \<Rightarrow> bool" where
  "gate_respected env data fb old new \<longleftrightarrow>
     (\<forall>k < length new. in_scope fb data (new ! k) \<and>
        (\<forall>r \<in> set (old @ take k new). in_scope fb data r
           \<longrightarrow> similarity env r (col_embedding (new ! k)) < similarity_search_score_threshold data))"

text \<open>The \<open>message_id\<close> and \<open>content\<close> columns of a row, as an entry of the response.\<close>

definition row_key :: "StoredRecord \<Rightarrow> AcceptedMessage" where
  "row_key r = \<lparr>out_message_id = col_message_id r, out_content = col_content r\<rparr>"

text \<open>
  The state of the table during a batch started in world \<open>w0\<close>: the rows appended so far
  respect the gate (\<open>stored\<close>), and they are the rows of the messages accepted so far
  (\<open>visible\<close>).
\<close>

definition visible ::
  "Env \<Rightarrow> BatchRequest \<Rightarrow> string list \<Rightarrow> World \<Rightarrow> Locals \<Rightarrow> World \<Rightarrow> bool" where
  "visible env data fb w0 l w \<longleftrightarrow>
     (\<exists>new. tables w (table_name data) = tables w0 (table_name data) @ new \<and>
        gate_respected env data fb (tables w0 (table_name data)) new \<and>
        map accepted_message (nonDuplicateMessages l) = map row_key new)"

definition stored ::
  "Env \<Rightarrow> BatchRequest \<Rightarrow> string list \<Rightarrow> World \<Rightarrow> World \<Rightarrow> bool" where
  "stored env data fb w0 w \<longleftrightarrow>
     (\<exists>new. tables w (table_name data) = tables w0 (table_name data) @ new \<and>
        gate_respected env data fb (tables w0 (table_name data)) new)"

text \<open>
  The rows written by a history of calls: those of its successful INSERT calls, in order.
\<close>

fun inserted_rows :: "(call \<times> bool) list \<Rightarrow> StoredRecord list" where
  "inserted_rows [] = []"
| "inserted_rows ((DbInsert r, True) # cs) = r # inserted_rows cs"
| "inserted_rows (c # cs) = inserted_rows cs"

definition all_succeeded :: "(call \<times> bool) list \<Rightarrow> bool" where
  "all_succeeded cs \<longleftrightarrow> (\<forall>c \<in> set cs. snd c)"

text \<open>
  The world \<open>w\<close> is the world \<open>w0\<close> after the calls \<open>ext\<close>: they extend the history,
  and the target table has gained the rows they wrote.
\<close>

definition journal :: "BatchRequest \<Rightarrow> World \<Rightarrow> (call \<times> bool) list \<Rightarrow> World \<Rightarrow> bool" where
  "journal data w0 ext w \<longleftrightarrow>
     calls w = calls w0 @ ext \<and>
     tables w = (tables w0)(table_name data := tables w0 (table_name data) @ inserted_rows ext)"

text \<open>
  The calls of the database client made for the messages of a chunk (the SELECT of lines
  234-242 and the INSERT of lines 255-278), and the number of SELECTs among some calls.
\<close>

fun is_store_call :: "call \<Rightarrow> bool" where
  "is_store_call DbSelect = True"
| "is_store_call (DbInsert r) = True"
| "is_store_call c = False"

definition store_calls_only :: "(call \<times> bool) list \<Rightarrow> bool" where
  "store_calls_only cs \<longleftrightarrow> (\<forall>c \<in> set cs. is_store_call (fst c))"

definition selects :: "(call \<times> bool) list \<Rightarrow> nat" where
  "selects cs = length (filter (\<lambda>c. fst c = DbSelect) cs)"

text \<open>
  A provider call that returns normally can still break the batch: when it answers with
  fewer vectors than it was given texts, \<open>embeddings.data[j]\<close> is \<open>undefined\<close> for the first
  message without a vector and \<open>embedding.join\<close> throws (lines 204-205). Among the calls
  \<open>cs\<close>, made from the \<open>n\<close>-th awaited call on, \<open>answered_short\<close> says that some provider
  call was answered so; \<open>stops_short\<close> says that the first such call is followed by calls
  of the database client only, with at most one SELECT for each vector it returned: no
  later message is looked up and no further chunk is sent to the provider.
\<close>

fun answered_short :: "Env \<Rightarrow> nat \<Rightarrow> (call \<times> bool) list \<Rightarrow> bool" where
  "answered_short env n [] = False"
| "answered_short env n ((AiRun texts, True) # cs) =
     ((case AI_run env n texts of Inr vs \<Rightarrow> length vs < length texts | Inl e \<Rightarrow> False)
      \<or> answered_short env (Suc n) cs)"
| "answered_short env n (c # cs) = answered_short env (Suc n) cs"

fun stops_short :: "Env \<Rightarrow> nat \<Rightarrow> (call \<times> bool) list \<Rightarrow> bool" where
  "stops_short env n [] = True"
| "stops_short env n ((AiRun texts, True) # cs) =
     (case AI_run env n texts of
        Inr vs \<Rightarrow> if length vs < length texts
                  then store_calls_only cs \<and> selects cs \<le> length vs
                  else stops_short env (Suc n) cs
      | Inl e \<Rightarrow> stops_short env (Suc n) cs)"
| "stops_short env n (c # cs) = stops_short env (Suc n) cs"

text \<open>
  A batch is \<open>settled\<close> while every call so far succeeded and every provider answer was
  complete, and \<open>broken\<close> once its last call failed or a provider answer fell short. Within
  a chunk whose provider call answered \<open>vs\<close> for \<open>texts\<close>, \<open>in_chunk\<close> holds after \<open>k\<close>
  messages were looked up.
\<close>

definition settled :: "Env \<Rightarrow> BatchRequest \<Rightarrow> World \<Rightarrow> World \<Rightarrow> bool" where
  "settled env data w0 w \<longleftrightarrow>
     (\<exists>ext. journal data w0 ext w \<and> all_succeeded ext
        \<and> \<not> answered_short env (length (calls w0)) ext)"

definition broken :: "Env \<Rightarrow> BatchRequest \<Rightarrow> World \<Rightarrow> World \<Rightarrow> bool" where
  "broken env data w0 w \<longleftrightarrow>
     (\<exists>ext. journal data w0 ext w \<and> all_succeeded (butlast ext)
        \<and> (\<not> all_succeeded ext \<or> answered_short env (length (calls w0)) ext)
        \<and> stops_short env (length (calls w0)) ext)"

definition in_chunk ::
  "BatchRequest \<Rightarrow> World \<Rightarrow> (call \<times> bool) list \<Rightarrow> string list \<Rightarrow> vector list
     \<Rightarrow> nat \<Rightarrow> World \<Rightarrow> bool" where
  "in_chunk data w0 ext0 texts vs k w \<longleftrightarrow>
     (\<exists>ext2. journal data w0 (ext0 @ [(AiRun texts, True)] @ ext2) w \<and> all_succeeded ext2
        \<and> store_calls_only ext2 \<and> selects ext2 = k \<and> k \<le> length vs)"

text \<open>
  The similarity score of the nearest stored row, as the store determines it: the greatest
  similarity (the least distance) to the query vector among the rows of the table in the
  scope of the request, and 0 when no row is in scope.
\<close>

definition nearest_score ::
  "Env \<Rightarrow> string list \<Rightarrow> BatchRequest \<Rightarrow> StoredRecord list \<Rightarrow> vector \<Rightarrow> real" where
  "nearest_score env fb data rows q =
     (let rs = filter (in_scope fb data) rows
      in if rs = [] then 0 else Max (set (map (\<lambda>r. similarity env r q) rs)))"

section \<open>Example inputs\<close>

definition msg :: "string \<Rightarrow> string \<Rightarrow> Message" where
  "msg i c = \<lparr>message_id = i, timestamp = ''2023-05-15T14:30:00Z'', content = c,
     platform_name = ''Twitter'', platform_user_id = ''user123'', platform_message_id = ''tweet456'',
     platform_message_url = ''https://twitter.com/user123/status/tweet456''\<rparr>"

definition example_messages :: "Message list" where
  "example_messages = [msg ''m1'' ''A'', msg ''m2'' ''A'', msg ''m3'' ''B'', msg ''m4'' ''A!'']"

definition example_request :: BatchRequest where
  "example_request =
     \<lparr>table_name = ''messages'', job_id = ''job_123456'', topic = ''cyberattack'',
      industry = ''finance'', subindustry = ''blockchain'',
      similarity_search_score_threshold = 9 / 10, filter_by = None,
      messages = example_messages\<rparr>"


definition example_row :: "string \<Rightarrow> string \<Rightarrow> vector \<Rightarrow> StoredRecord" where
  "example_row i c e = stored_record example_request (msg i c) e 0"

text \<open>
  A provider that embeds \<open>B\<close> as \<open>[0, 1]\<close> and every other text as \<open>[1, 0]\<close>, a store
  whose distance is 0 between equal vectors and 1 otherwise, no failing call, and a world
  with empty tables.
\<close>

definition example_embedding :: "string \<Rightarrow> vector" where
  "example_embedding c = (if c = ''B'' then [0, 1] else [1, 0])"

definition example_env :: Env where
  "example_env =
     \<lparr>AI_run = (\<lambda>n texts. Inr (map example_embedding texts)),
      db_fails = (\<lambda>n. False),
      cosine_distance = (\<lambda>u v. if u = v then 0 else 1),
      DEDUP_AUTH_TOKEN = ''test-auth-token''\<rparr>"

definition example_world :: World where
  "example_world = \<lparr>tables = (\<lambda>t. []), calls = []\<rparr>"

text \<open>The response to \<open>example_request\<close> on the empty store, and the world it leaves.\<close>

definition example_response :: BatchResponse where
  "example_response =
     \<lparr>resp_status = ''success'',
      resp_data =
        \<lparr>r_table_name = ''messages'', r_job_id = ''job_123456'', r_topic = ''cyberattack'',
         r_industry = ''finance'', r_subindustry = ''blockchain'',
         r_similarity_search_score_threshold = 9 / 10,
         r_filter_by = [''topic'', ''subindustry''],
         r_stats = \<lparr>received = 4, inserted = 2, dropped = 2, insertion_rate = Finite (1 / 2)\<rparr>,
         r_non_duplicate_messages =
           [\<lparr>out_message_id = ''m1'', out_content = ''A''\<rparr>,
            \<lparr>out_message_id = ''m3'', out_content = ''B''\<rparr>]\<rparr>,
      resp_message = ''Batch processing completed successfully''\<rparr>"

definition example_final_world :: World where
  "example_final_world =
     \<lparr>tables = (\<lambda>t. [])(''messages'' :=
         [example_row ''m1'' ''A'' [1, 0], example_row ''m3'' ''B'' [0, 1]]),
      calls = [(DbConnect, True), (AiRun [''A'', ''B'', ''A!''], True), (DbSelect, True),
               (DbInsert (example_row ''m1'' ''A'' [1, 0]), True), (DbSelect, True),
               (DbInsert (example_row ''m3'' ''B'' [0, 1]), True), (DbSelect, True),
               (DbEnd, True)]\<rparr>"

text \<open>The response to the request with no message.\<close>

definition example_empty_response :: BatchResponse where
  "example_empty_response =
     example_response\<lparr>resp_data := (resp_data example_response)
       \<lparr>r_stats := \<lparr>received = 0, inserted = 0, dropped = 0, insertion_rate = NaN\<rparr>,
        r_non_duplicate_messages := []\<rparr>\<rparr>"

text \<open>The same environment with the sixth awaited call (the second INSERT) failing.\<close>

definition example_failing_env :: Env where
  "example_failing_env = example_env\<lparr>db_fails := (\<lambda>n. n = 5)\<rparr>"

definition example_failed_calls :: "(call \<times> bool) list" where
  "example_failed_calls =
     [(DbConnect, True), (AiRun [''A'', ''B'', ''A!''], True), (DbSelect, True),
      (DbInsert (example_row ''m1'' ''A'' [1, 0]), True), (DbSelect, True),
      (DbInsert (example_row ''m3'' ''B'' [0, 1]), False)]"

definition example_failed_world :: World where
  "example_failed_world =
     \<lparr>tables = (\<lambda>t. [])(''messages'' := [example_row ''m1'' ''A'' [1, 0]]),
      calls = example_failed_calls @ [(DbEnd, True)]\<rparr>"

text \<open>
  The same environment with a provider that answers every call with the single vector
  \<open>[1, 0]\<close>: the second message of the chunk has no vector.
\<close>

definition example_short_env :: Env where
  "example_short_env = example_env\<lparr>AI_run := (\<lambda>n texts. Inr [[1, 0]])\<rparr>"

definition example_short_calls :: "(call \<times> bool) list" where
  "example_short_calls =
     [(DbConnect, True), (AiRun [''A'', ''B'', ''A!''], True), (DbSelect, True),
      (DbInsert (example_row ''m1'' ''A'' [1, 0]), True)]"

definition example_short_world :: World where
  "example_short_world =
     \<lparr>tables = (\<lambda>t. [])(''messages'' := [example_row ''m1'' ''A'' [1, 0]]),
      calls = example_short_calls @ [(DbEnd, True)]\<rparr>"

text \<open>An authorized POST of \<open>example_request\<close>.\<close>

definition example_http_request :: Request where
  "example_http_request =
     \<lparr>authorization = Some ''Bearer test-auth-token'', request_method = ''POST'',
      json = Some example_request\<rparr>"

text \<open>The locals before the first message of \<open>example_request\<close> reaches the gate.\<close>

definition example_locals :: Locals where
  "example_locals = initial_locals example_request"

text \<open>A store whose only row has the embedding \<open>[1, 0]\<close> under another topic.\<close>

definition example_foreign_world :: World where
  "example_foreign_world =
     \<lparr>tables = (\<lambda>t. [])(''messages'' :=
         [(example_row ''m0'' ''A'' [1, 0])\<lparr>col_topic := ''weather''\<rparr>]),
      calls = []\<rparr>"

text \<open>The request with threshold 0, and the response to it on the empty store.\<close>

definition example_zero_request :: BatchRequest where
  "example_zero_request = example_request\<lparr>similarity_search_score_threshold := 0\<rparr>"

definition example_zero_response :: BatchResponse where
  "example_zero_response =
     example_response\<lparr>resp_data := (resp_data example_response)
       \<lparr>r_similarity_search_score_threshold := 0,
        r_stats := \<lparr>received = 4, inserted = 0, dropped = 4, insertion_rate = Finite 0\<rparr>,
        r_non_duplicate_messages := []\<rparr>\<rparr>"

text \<open>
  A batch of two messages with the same content, a store that already holds a row with the
  embedding \<open>[1, 0]\<close> in the scope of the request, and the response to the batch there.
\<close>

definition example_twice_request :: BatchRequest where
  "example_twice_request = example_request\<lparr>messages := [msg ''m1'' ''A'', msg ''m2'' ''A'']\<rparr>"

definition example_seen_world :: World where
  "example_seen_world =
     \<lparr>tables = (\<lambda>t. [])(''messages'' := [example_row ''m0'' ''old'' [1, 0]]), calls = []\<rparr>"

definition example_twice_response :: BatchResponse where
  "example_twice_response =
     example_response\<lparr>resp_data := (resp_data example_response)
       \<lparr>r_stats := \<lparr>received = 2, inserted = 0, dropped = 2, insertion_rate = Finite 0\<rparr>,
        r_non_duplicate_messages := []\<rparr>\<rparr>"

text \<open>
  A batch of three messages of which one is accepted, the response to it on the empty store,
  and the world it leaves.
\<close>

definition example_third_request :: BatchRequest where
  "example_third_request =
     example_request\<lparr>messages := [msg ''m1'' ''A'', msg ''m2'' ''A'', msg ''m4'' ''A!'']\<rparr>"

definition example_third_response :: BatchResponse where
  "example_third_response =
     example_response\<lparr>resp_data := (resp_data example_response)
       \<lparr>r_stats := \<lparr>received = 3, inserted = 1, dropped = 2,
                     insertion_rate = Finite (6004799503160661 / 2 ^ 54)\<rparr>,
        r_non_duplicate_messages := [\<lparr>out_message_id = ''m1'', out_content = ''A''\<rparr>]\<rparr>\<rparr>"

definition example_third_world :: World where
  "example_third_world =
     \<lparr>tables = (\<lambda>t. [])(''messages'' := [example_row ''m1'' ''A'' [1, 0]]),
      calls = [(DbConnect, True), (AiRun [''A'', ''A!''], True), (DbSelect, True),
               (DbInsert (example_row ''m1'' ''A'' [1, 0]), True), (DbSelect, True),
               (DbEnd, True)]\<rparr>"

text \<open>
  An environment whose distance is 0 between equal vectors, 1/4 between different vectors
  with the same first component, and 1 otherwise.
\<close>

definition example_graded_env :: Env where
  "example_graded_env =
     example_env\<lparr>cosine_distance :=
       (\<lambda>u v. if u = v then 0 else if take 1 u = take 1 v then 1 / 4 else 1)\<rparr>"

section \<open>Properties\<close>

declare message_loop.simps [simp del]
declare chunk_loop.simps [simp del]
declare bit_length.simps [simp del]

subsection \<open>The exact-match filter\<close>

lemma exact_loop_acc:
  "exact_loop ms cs um = um @ exact_loop ms cs []"
proof (induction ms arbitrary: cs um)
  case Nil
  show ?case by simp
next
  case (Cons m ms)
  have a: "exact_loop ms cs' (um @ [m]) = um @ [m] @ exact_loop ms cs' []" for cs'
    using Cons.IH [of cs' "um @ [m]"] by simp
  have b: "exact_loop ms cs' [m] = [m] @ exact_loop ms cs' []" for cs'
    using Cons.IH [of cs' "[m]"] by simp
  show ?case
    using a b Cons.IH [of cs um] by simp
qed

lemma exact_loop_Cons:
  "exact_loop (m # ms) cs [] =
     (if content m \<notin> cs then m # exact_loop ms (insert (content m) cs) [] else exact_loop ms cs [])"
  using exact_loop_acc [of ms "insert (content m) cs" "[m]"] by simp

lemma exact_loop_nths:
  "exact_loop ms cs [] =
     nths ms {i. content (ms ! i) \<notin> cs \<and> (\<forall>j<i. content (ms ! j) \<noteq> content (ms ! i))}"
proof (induction ms arbitrary: cs)
  case Nil
  show ?case by simp
next
  case (Cons m ms)
  show ?case
  proof (cases "content m \<in> cs")
    case True
    have "{j. content (ms ! j) \<notin> cs \<and> (\<forall>k<Suc j. content ((m # ms) ! k) \<noteq> content (ms ! j))}
        = {j. content (ms ! j) \<notin> cs \<and> (\<forall>k<j. content (ms ! k) \<noteq> content (ms ! j))}"
      using True by (auto simp: All_less_Suc2)
    then show ?thesis
      using True Cons.IH [of cs] by (simp del: exact_loop.simps(2) add: exact_loop_Cons nths_Cons)
  next
    case False
    have "{j. content (ms ! j) \<notin> cs \<and> (\<forall>k<Suc j. content ((m # ms) ! k) \<noteq> content (ms ! j))}
        = {j. content (ms ! j) \<notin> insert (content m) cs
              \<and> (\<forall>k<j. content (ms ! k) \<noteq> content (ms ! j))}"
      by (auto simp: All_less_Suc2)
    then show ?thesis
      using False Cons.IH [of "insert (content m) cs"]
      by (simp del: exact_loop.simps(2) add: exact_loop_Cons nths_Cons)
  qed
qed

lemma exact_loop_filter:
  "filter (\<lambda>m. content m = c) (exact_loop ms cs []) =
     (if c \<in> cs then [] else take 1 (filter (\<lambda>m. content m = c) ms))"
proof (induction ms arbitrary: cs)
  case Nil
  show ?case by simp
next
  case (Cons m ms)
  show ?case
    using Cons.IH [of cs] Cons.IH [of "insert (content m) cs"]
    by (auto simp del: exact_loop.simps(2) simp add: exact_loop_Cons)
qed

lemma exact_loop_subseq: "subseq (exact_loop ms cs []) ms"
  by (induction ms arbitrary: cs) (auto simp del: exact_loop.simps(2) simp add: exact_loop_Cons)

lemma exact_loop_distinct:
  "distinct (map content (exact_loop ms cs [])) \<and> content ` set (exact_loop ms cs []) \<inter> cs = {}"
proof (induction ms arbitrary: cs)
  case Nil
  show ?case by simp
next
  case (Cons m ms)
  show ?case
    using Cons.IH [of cs] Cons.IH [of "insert (content m) cs"]
    by (auto simp del: exact_loop.simps(2) simp add: exact_loop_Cons)
qed

lemma uniqueMessages_subseq: "subseq (uniqueMessages ms) ms"
  by (simp add: uniqueMessages_def exact_loop_subseq)

lemma uniqueMessages_distinct: "distinct (map content (uniqueMessages ms))"
  using exact_loop_distinct [of ms "{}"] by (simp add: uniqueMessages_def)

lemma uniqueMessages_example:
  "uniqueMessages example_messages = [msg ''m1'' ''A'', msg ''m3'' ''B'', msg ''m4'' ''A!'']"
  by (simp add: uniqueMessages_def example_messages_def msg_def)

subsection \<open>The query conditions\<close>

lemma param_at_append:
  "param_at ps k = Some v \<Longrightarrow> param_at (ps @ qs) k = Some v"
  by (auto simp: param_at_def nth_append split: if_splits)

lemma param_at_last: "param_at (ps @ [v]) (Suc (length ps)) = Some v"
  by (simp add: param_at_def)

lemma builder_ok_push:
  assumes "builder_ok data q" "c \<in> filterable_fields" "request_field data c = v" "v \<noteq> []"
  shows "builder_ok data (push_condition c v q)"
  using assms
  by (auto simp: builder_ok_def push_condition_def param_at_last intro: param_at_append)

lemma add_condition_cases:
  "add_condition data field q =
     (if field \<in> filterable_fields \<and> request_field data field \<noteq> []
      then push_condition field (request_field data field) q else q)"
  by (simp add: add_condition_def filterable_fields_def request_field_def)

lemma builder_ok_add: "builder_ok data q \<Longrightarrow> builder_ok data (add_condition data field q)"
  by (simp add: add_condition_cases builder_ok_push)

lemma builder_ok_fold:
  "builder_ok data q \<Longrightarrow> builder_ok data (fold (add_condition data) fb q)"
  by (induction fb arbitrary: q) (simp_all add: builder_ok_add)

lemma builder_ok_prepare: "builder_ok data (prepare_conditions fb data)"
  unfolding prepare_conditions_def
  by (rule builder_ok_fold) (simp add: builder_ok_def)

lemma fold_add_condition_fields:
  "fst ` set (whereConditions (fold (add_condition data) fb q)) =
     fst ` set (whereConditions q)
       \<union> {c \<in> set fb. c \<in> filterable_fields \<and> request_field data c \<noteq> []}"
proof (induction fb arbitrary: q)
  case Nil
  show ?case by simp
next
  case (Cons f fb)
  show ?case
    using Cons.IH [of "add_condition data f q"]
    by (auto simp: add_condition_cases push_condition_def)
qed

lemma prepare_conditions_fields:
  "fst ` set (whereConditions (prepare_conditions fb data)) =
     {c \<in> set fb. c \<in> filterable_fields \<and> request_field data c \<noteq> []}"
  by (simp add: prepare_conditions_def fold_add_condition_fields)

lemma satisfies_prepared:
  assumes "c \<in> set (whereConditions (prepare_conditions fb data))"
  shows "satisfies (queryParams (prepare_conditions fb data) @ extra) r c
           \<longleftrightarrow> column (fst c) r = Some (request_field data (fst c))"
proof -
  have "param_at (queryParams (prepare_conditions fb data)) (snd c)
          = Some (PString (request_field data (fst c)))"
    using builder_ok_prepare [of data fb] assms by (simp add: builder_ok_def)
  then have "param_at (queryParams (prepare_conditions fb data) @ extra) (snd c)
          = Some (PString (request_field data (fst c)))"
    by (rule param_at_append)
  moreover have "fst c \<in> filterable_fields"
    using builder_ok_prepare [of data fb] assms by (simp add: builder_ok_def)
  then have "column (fst c) r \<noteq> None"
    by (auto simp: filterable_fields_def column_def)
  ultimately show ?thesis
    by (auto simp: satisfies_def split: option.splits)
qed

lemma where_clause_meaning:
  "list_all (satisfies (queryParams (prepare_conditions fb data) @ extra) r)
      (whereConditions (prepare_conditions fb data))
   \<longleftrightarrow> (\<forall>c \<in> set fb. c \<in> filterable_fields \<and> request_field data c \<noteq> []
          \<longrightarrow> column c r = Some (request_field data c))"
proof -
  let ?q = "prepare_conditions fb data"
  have "list_all (satisfies (queryParams ?q @ extra) r) (whereConditions ?q)
      \<longleftrightarrow> (\<forall>c \<in> set (whereConditions ?q). column (fst c) r = Some (request_field data (fst c)))"
    by (simp add: list_all_iff satisfies_prepared)
  also have "\<dots> \<longleftrightarrow> (\<forall>f \<in> fst ` set (whereConditions ?q). column f r = Some (request_field data f))"
    by auto
  also have "\<dots> \<longleftrightarrow> (\<forall>c \<in> set fb. c \<in> filterable_fields \<and> request_field data c \<noteq> []
          \<longrightarrow> column c r = Some (request_field data c))"
    unfolding prepare_conditions_fields by auto
  finally show ?thesis .
qed

lemma paramIndex_prepare:
  "paramIndex (prepare_conditions fb data) = length (queryParams (prepare_conditions fb data)) + 1"
  using builder_ok_prepare [of data fb] by (simp add: builder_ok_def)



subsection \<open>Effects of the awaited calls, and rules for the two loops\<close>

lemma select_effect:
  assumes "dbClient_query_select env t conds k ps w = (res, w')"
  shows "tables w' = tables w \<and> calls w' = calls w @ [(DbSelect, \<not> isl res)]"
proof (cases "similarity_select (cosine_distance env) (tables w t) conds k ps")
  case (Inl e)
  then have "dbClient_query_select env t conds k ps w
      = (Inl (if db_fails env (length (calls w)) then DatabaseError else e), record_call DbSelect False w)"
    by (simp add: dbClient_query_select_def)
  with assms have "res = Inl (if db_fails env (length (calls w)) then DatabaseError else e)"
    and "w' = record_call DbSelect False w"
    by simp_all
  then show ?thesis
    by (simp add: record_call_def)
next
  case (Inr rows)
  show ?thesis
  proof (cases "db_fails env (length (calls w))")
    case True
    with assms have "res = Inl DatabaseError" and "w' = record_call DbSelect False w"
      by (simp_all add: dbClient_query_select_def)
    then show ?thesis
      by (simp add: record_call_def)
  next
    case False
    with assms Inr have "res = Inr rows" and "w' = record_call DbSelect True w"
      by (simp_all add: dbClient_query_select_def)
    then show ?thesis
      by (simp add: record_call_def)
  qed
qed

lemma select_result:
  assumes "dbClient_query_select env t conds k ps w = (Inr rows, w')"
  shows "similarity_select (cosine_distance env) (tables w t) conds k ps = Inr rows"
  using assms
  by (auto simp: dbClient_query_select_def split: if_splits sum.splits)

lemma insert_effect:
  assumes "dbClient_query_insert env t row w = (res, w')"
  shows "calls w' = calls w @ [(DbInsert row, \<not> isl res)]
       \<and> tables w' = (if isl res then tables w else (tables w)(t := tables w t @ [row]))"
  using assms
  by (auto simp: dbClient_query_insert_def record_call_def split: if_splits)

lemma ai_effect:
  assumes "env_AI_run env texts w = (res, w')"
  shows "tables w' = tables w \<and> calls w' = calls w @ [(AiRun texts, \<not> isl res)]"
proof (cases "AI_run env (length (calls w)) texts")
  case (Inl e)
  with assms have "res = Inl e" and "w' = record_call (AiRun texts) False w"
    by (simp_all add: env_AI_run_def)
  then show ?thesis
    by (simp add: record_call_def)
next
  case (Inr vs)
  with assms have "res = Inr vs" and "w' = record_call (AiRun texts) True w"
    by (simp_all add: env_AI_run_def)
  then show ?thesis
    by (simp add: record_call_def)
qed

lemma process_message_cases:
  assumes "process_message env data fb embeddings batch j l w = (res, w')"
  obtains
    (missing) "\<not> j < length embeddings" "res = Inl TypeError" "w' = w"
  | (select_failed) e where "j < length embeddings"
      "dbClient_query_select env (table_name data) (whereConditions (prepare_conditions fb data))
         (paramIndex (prepare_conditions fb data))
         (queryParams (prepare_conditions fb data) @ [PVector (embeddings ! j)]) w = (Inl e, w')"
      "res = Inl e"
  | (rejected) rows where "j < length embeddings"
      "dbClient_query_select env (table_name data) (whereConditions (prepare_conditions fb data))
         (paramIndex (prepare_conditions fb data))
         (queryParams (prepare_conditions fb data) @ [PVector (embeddings ! j)]) w = (Inr rows, w')"
      "\<not> similarityScore_of rows < similarity_search_score_threshold data"
      "res = Inr (l\<lparr>stats := (stats l)\<lparr>dropped := dropped (stats l) + 1\<rparr>\<rparr>)"
  | (insert_failed) rows w1 e where "j < length embeddings"
      "dbClient_query_select env (table_name data) (whereConditions (prepare_conditions fb data))
         (paramIndex (prepare_conditions fb data))
         (queryParams (prepare_conditions fb data) @ [PVector (embeddings ! j)]) w = (Inr rows, w1)"
      "similarityScore_of rows < similarity_search_score_threshold data"
      "dbClient_query_insert env (table_name data)
         (stored_record data (batch ! j) (embeddings ! j) (similarityScore_of rows)) w1 = (Inl e, w')"
      "res = Inl e"
  | (accepted) rows w1 where "j < length embeddings"
      "dbClient_query_select env (table_name data) (whereConditions (prepare_conditions fb data))
         (paramIndex (prepare_conditions fb data))
         (queryParams (prepare_conditions fb data) @ [PVector (embeddings ! j)]) w = (Inr rows, w1)"
      "similarityScore_of rows < similarity_search_score_threshold data"
      "dbClient_query_insert env (table_name data)
         (stored_record data (batch ! j) (embeddings ! j) (similarityScore_of rows)) w1 = (Inr (), w')"
      "res = Inr (l\<lparr>nonDuplicateMessages := nonDuplicateMessages l @ [batch ! j]\<rparr>)"
  using assms unfolding process_message_def Let_def
  by (auto split: if_splits prod.splits sum.splits)

lemma message_loop_rule:
  assumes inv: "P (pre @ take j batch) l w"
    and err: "\<And>j l w e w1. j < length batch \<Longrightarrow> P (pre @ take j batch) l w
        \<Longrightarrow> process_message env data fb embeddings batch j l w = (Inl e, w1) \<Longrightarrow> F w1"
    and ok: "\<And>j l w l1 w1. j < length batch \<Longrightarrow> P (pre @ take j batch) l w
        \<Longrightarrow> process_message env data fb embeddings batch j l w = (Inr l1, w1)
        \<Longrightarrow> P (pre @ take j batch @ [batch ! j]) l1 w1"
  shows "case message_loop env data fb embeddings batch j l w of
           (Inl e, w') \<Rightarrow> F w' | (Inr l', w') \<Rightarrow> P (pre @ batch) l' w'"
  using inv
proof (induction "length batch - j" arbitrary: j l w)
  case 0
  then show ?case
    by (subst message_loop.simps) simp
next
  case (Suc n)
  then have j: "j < length batch" by simp
  obtain r w1 where pm: "process_message env data fb embeddings batch j l w = (r, w1)"
    by (cases "process_message env data fb embeddings batch j l w")
  show ?case
  proof (cases r)
    case (Inl e)
    then show ?thesis
      using err [OF j Suc.prems] pm j by (subst message_loop.simps) simp
  next
    case (Inr l1)
    have "P (pre @ take (Suc j) batch) l1 w1"
      using ok [OF j Suc.prems] pm Inr j by (simp add: take_Suc_conv_app_nth)
    moreover have "n = length batch - Suc j"
      using Suc.hyps(2) by simp
    ultimately have "case message_loop env data fb embeddings batch (Suc j) l1 w1 of
           (Inl e, w') \<Rightarrow> F w' | (Inr l', w') \<Rightarrow> P (pre @ batch) l' w'"
      by (rule Suc.hyps(1) [rotated])
    then show ?thesis
      using pm Inr j by (subst message_loop.simps) simp
  qed
qed

lemma process_chunk_rule:
  assumes inv: "P (take i um) l w"
    and ai_err: "\<And>texts e w1. env_AI_run env texts w = (Inl e, w1) \<Longrightarrow> F w1"
    and ai_ok: "\<And>texts vs w1. env_AI_run env texts w = (Inr vs, w1) \<Longrightarrow> P (take i um) l w1"
    and err: "\<And>pre embeddings batch j l w e w1. j < length batch \<Longrightarrow> P pre l w
        \<Longrightarrow> process_message env data fb embeddings batch j l w = (Inl e, w1) \<Longrightarrow> F w1"
    and ok: "\<And>pre embeddings batch j l w l1 w1. j < length batch \<Longrightarrow> P pre l w
        \<Longrightarrow> process_message env data fb embeddings batch j l w = (Inr l1, w1)
        \<Longrightarrow> P (pre @ [batch ! j]) l1 w1"
  shows "case process_chunk env data fb um i l w of
           (Inl e, w') \<Rightarrow> F w' | (Inr l', w') \<Rightarrow> P (take (i + embeddingBatchSize) um) l' w'"
proof -
  let ?batch = "take embeddingBatchSize (drop i um)"
  obtain r w1 where ai: "env_AI_run env (map content ?batch) w = (r, w1)"
    by (cases "env_AI_run env (map content ?batch) w")
  show ?thesis
  proof (cases r)
    case (Inl e)
    then show ?thesis
      using ai ai_err [of "map content ?batch" e w1] by (simp add: process_chunk_def)
  next
    case (Inr vs)
    have "P (take i um @ take 0 ?batch) l w1"
      using ai_ok [of "map content ?batch" vs w1] ai Inr by simp
    then have "case message_loop env data fb vs ?batch 0 l w1 of
           (Inl e, w') \<Rightarrow> F w' | (Inr l', w') \<Rightarrow> P (take i um @ ?batch) l' w'"
    proof (rule message_loop_rule)
      fix j l w e w1
      assume "j < length ?batch" "P (take i um @ take j ?batch) l w"
        "process_message env data fb vs ?batch j l w = (Inl e, w1)"
      then show "F w1" by (rule err)
    next
      fix j l w l1 w1
      assume "j < length ?batch" "P (take i um @ take j ?batch) l w"
        "process_message env data fb vs ?batch j l w = (Inr l1, w1)"
      then have "P ((take i um @ take j ?batch) @ [?batch ! j]) l1 w1" by (rule ok)
      then show "P (take i um @ take j ?batch @ [?batch ! j]) l1 w1" by simp
    qed
    moreover have eq: "take i um @ ?batch = take (i + embeddingBatchSize) um"
      by (simp add: take_add)
    ultimately have "case message_loop env data fb vs ?batch 0 l w1 of
           (Inl e, w') \<Rightarrow> F w' | (Inr l', w') \<Rightarrow> P (take (i + embeddingBatchSize) um) l' w'"
      by (simp only: eq)
    then show ?thesis
      using ai Inr by (simp add: process_chunk_def)
  qed
qed

lemma chunk_loop_rule:
  assumes inv: "P (take i um) l w"
    and ai_err: "\<And>pre l w texts e w1. P pre l w \<Longrightarrow> env_AI_run env texts w = (Inl e, w1) \<Longrightarrow> F w1"
    and ai_ok: "\<And>pre l w texts vs w1. P pre l w \<Longrightarrow> env_AI_run env texts w = (Inr vs, w1)
        \<Longrightarrow> P pre l w1"
    and err: "\<And>pre embeddings batch j l w e w1. j < length batch \<Longrightarrow> P pre l w
        \<Longrightarrow> process_message env data fb embeddings batch j l w = (Inl e, w1) \<Longrightarrow> F w1"
    and ok: "\<And>pre embeddings batch j l w l1 w1. j < length batch \<Longrightarrow> P pre l w
        \<Longrightarrow> process_message env data fb embeddings batch j l w = (Inr l1, w1)
        \<Longrightarrow> P (pre @ [batch ! j]) l1 w1"
  shows "case chunk_loop env data fb um i l w of
           (Inl e, w') \<Rightarrow> F w' | (Inr l', w') \<Rightarrow> P um l' w'"
  using inv
proof (induction "length um - i" arbitrary: i l w rule: less_induct)
  case less
  show ?case
  proof (cases "i < length um")
    case False
    then show ?thesis
      using less.prems by (subst chunk_loop.simps) simp
  next
    case True
    have pc: "case process_chunk env data fb um i l w of
           (Inl e, w') \<Rightarrow> F w' | (Inr l', w') \<Rightarrow> P (take (i + embeddingBatchSize) um) l' w'"
      using less.prems
    proof (rule process_chunk_rule)
      show "\<And>texts e w1. env_AI_run env texts w = (Inl e, w1) \<Longrightarrow> F w1"
        using less.prems ai_err by blast
      show "\<And>texts vs w1. env_AI_run env texts w = (Inr vs, w1) \<Longrightarrow> P (take i um) l w1"
        using less.prems ai_ok by blast
    qed (fact err ok)+
    obtain r w1 where r: "process_chunk env data fb um i l w = (r, w1)"
      by (cases "process_chunk env data fb um i l w")
    show ?thesis
    proof (cases r)
      case (Inl e)
      then show ?thesis
        using pc r True by (subst chunk_loop.simps) simp
    next
      case (Inr l1)
      have "length um - (i + embeddingBatchSize) < length um - i"
        using True by (simp add: embeddingBatchSize_def)
      moreover have "P (take (i + embeddingBatchSize) um) l1 w1"
        using pc r Inr by simp
      ultimately have "case chunk_loop env data fb um (i + embeddingBatchSize) l1 w1 of
           (Inl e, w') \<Rightarrow> F w' | (Inr l', w') \<Rightarrow> P um l' w'"
        by (rule less.hyps)
      then show ?thesis
        using r Inr True by (subst chunk_loop.simps) simp
    qed
  qed
qed

subsection \<open>The division of line 303\<close>

lemma bit_length_0 [simp]: "bit_length 0 = 0"
  by (subst bit_length.simps) simp

lemma bit_length_pos: "0 < n \<Longrightarrow> bit_length n = Suc (bit_length (n div 2))"
  by (subst bit_length.simps) simp

lemma bit_length_Suc_0 [simp]: "bit_length (Suc 0) = 1"
  by (simp add: bit_length_pos)

lemma bit_length_1 [simp]: "bit_length 1 = 1"
  by (simp add: bit_length_pos)

lemma bit_length_Bit0 [simp]:
  "bit_length (numeral (num.Bit0 k)) = Suc (bit_length (numeral k))"
  by (simp add: bit_length_pos)

lemma bit_length_Bit1 [simp]:
  "bit_length (numeral (num.Bit1 k)) = Suc (bit_length (numeral k))"
  by (simp add: bit_length_pos)

lemma bit_length_One [simp]: "bit_length (numeral num.One) = 1"
  by (simp add: bit_length_pos)

lemmas double_defs =
  double_quotient_def quotient_mantissa_def quotient_exponent_def round_half_even_def Let_def

lemma double_quotient_zero [simp]: "double_quotient 0 b = 0"
  by (simp add: double_quotient_def)

lemma double_quotient_half: "double_quotient 2 4 = 1 / 2"
  by (simp add: double_defs)

lemma double_quotient_third: "double_quotient 1 3 = 6004799503160661 / 2 ^ 54"
  by (simp add: double_defs)

lemma quotient_mantissa_third: "quotient_mantissa 1 3 = 6004799503160661"
  by (simp add: double_defs)

lemma double_quotient_examples:
  "double_quotient (Suc (Suc 0)) 4 = 1 / 2"
  "double_quotient (Suc 0) (Suc (Suc (Suc 0))) = 6004799503160661 / 2 ^ 54"
  using double_quotient_half double_quotient_third by (simp_all add: numeral_eq_Suc)

lemma round_half_even_close:
  assumes "0 < q"
  shows "\<bar>real (round_half_even p q) - real p / real q\<bar> \<le> 1 / 2"
proof -
  let ?n = "p div q" and ?r = "p mod q"
  have p: "real p = real q * real ?n + real ?r"
    by (metis div_mult_mod_eq mult.commute of_nat_add of_nat_mult)
  have q: "0 < real q"
    using assms by simp
  have quot: "real p / real q = real ?n + real ?r / real q"
    using q by (simp add: p field_simps)
  have r: "real ?r < real q"
    using assms by simp
  consider "2 * ?r < q" | "q < 2 * ?r" | "2 * ?r = q"
    by linarith
  then show ?thesis
  proof cases
    case 1
    then have "real ?r / real q \<le> 1 / 2"
      using q by (simp add: field_simps)
    moreover have "0 \<le> real ?r / real q"
      using q by simp
    ultimately show ?thesis
      using 1 by (simp add: round_half_even_def Let_def quot)
  next
    case 2
    then have "2 * real ?r > real q"
      by (metis of_nat_less_iff of_nat_mult of_nat_numeral)
    then have "1 / 2 \<le> real ?r / real q"
      using q by (simp add: field_simps)
    moreover have "real ?r / real q \<le> 1"
      using q r by (simp add: field_simps)
    ultimately show ?thesis
      using 2 by (simp add: round_half_even_def Let_def quot)
  next
    case 3
    then have "2 * real ?r = real q"
      by (metis of_nat_mult of_nat_numeral)
    then have "real ?r / real q = 1 / 2"
      using q by (simp add: field_simps)
    then show ?thesis
      using 3 by (simp add: round_half_even_def Let_def quot)
  qed
qed

lemma bit_length_bounds:
  "0 < n \<Longrightarrow> 2 ^ (bit_length n - 1) \<le> n \<and> n < 2 ^ bit_length n"
proof (induction n rule: bit_length.induct)
  case (1 n)
  show ?case
  proof (cases "n div 2 = 0")
    case True
    then have "n = 1"
      using 1(2) by (simp add: div_eq_0_iff)
    then show ?thesis
      by simp
  next
    case False
    then have h: "2 ^ (bit_length (n div 2) - 1) \<le> n div 2 \<and> n div 2 < 2 ^ bit_length (n div 2)"
      using 1 by simp
    have pos: "0 < bit_length (n div 2)"
      using False by (simp add: bit_length_pos)
    have bl: "bit_length n = Suc (bit_length (n div 2))"
      using 1(2) by (simp add: bit_length_pos)
    have "2 ^ (bit_length n - 1) = 2 * 2 ^ (bit_length (n div 2) - 1)"
      using pos bl by (cases "bit_length (n div 2)") simp_all
    also have "\<dots> \<le> 2 * (n div 2)"
      using h by simp
    also have "\<dots> \<le> n"
      by simp
    finally have lo: "2 ^ (bit_length n - 1) \<le> n" .
    have "n < 2 * (n div 2) + 2"
      by presburger
    also have "\<dots> \<le> 2 * 2 ^ bit_length (n div 2)"
      using h by simp
    finally have "n < 2 ^ bit_length n"
      by (simp add: bl)
    with lo show ?thesis by simp
  qed
qed

lemma bit_length_powi:
  assumes "0 < n"
  shows "2 powi (int (bit_length n) - 1) \<le> real n \<and> real n < 2 powi int (bit_length n)"
proof -
  have pos: "0 < bit_length n"
    using assms by (simp add: bit_length_pos)
  then have "int (bit_length n) - 1 = int (bit_length n - 1)"
    by simp
  then have "(2::real) powi (int (bit_length n) - 1) = 2 ^ (bit_length n - 1)"
    by (simp only: power_int_of_nat)
  moreover have "real (2 ^ (bit_length n - 1)) \<le> real n" "real n < real (2 ^ bit_length n)"
    using bit_length_bounds [OF assms] by (simp_all only: of_nat_le_iff of_nat_less_iff)
  ultimately show ?thesis
    by simp
qed

lemma exponent_test:
  assumes "0 < b"
  shows "(if 0 \<le> d then b * 2 ^ nat d \<le> a else b \<le> a * 2 ^ nat (- d))
           \<longleftrightarrow> 2 powi d \<le> real a / real b"
proof (cases "0 \<le> d")
  case True
  have "b * 2 ^ nat d \<le> a \<longleftrightarrow> real (b * 2 ^ nat d) \<le> real a"
    by (simp only: of_nat_le_iff)
  also have "\<dots> \<longleftrightarrow> 2 ^ nat d \<le> real a / real b"
    using assms by (simp add: field_simps)
  finally show ?thesis
    using True by (simp add: power_int_def)
next
  case False
  have "b \<le> a * 2 ^ nat (- d) \<longleftrightarrow> real b \<le> real (a * 2 ^ nat (- d))"
    by (simp only: of_nat_le_iff)
  also have "\<dots> \<longleftrightarrow> inverse 2 ^ nat (- d) \<le> real a / real b"
    using assms by (simp add: field_simps)
  finally show ?thesis
    using False by (simp add: power_int_def)
qed

lemma quotient_exponent_bounds:
  assumes a: "0 < a" and b: "0 < b"
  shows "2 powi quotient_exponent a b \<le> real a / real b
       \<and> real a / real b < 2 powi (quotient_exponent a b + 1)"
proof -
  let ?la = "int (bit_length a)" and ?lb = "int (bit_length b)"
  let ?d = "?la - ?lb"
  let ?x = "real a / real b"
  have rb: "0 < real b" using b by simp
  have ba: "2 powi (?la - 1) \<le> real a" "real a < 2 powi ?la"
    using bit_length_powi [OF a] by simp_all
  have bb: "2 powi (?lb - 1) \<le> real b" "real b < 2 powi ?lb"
    using bit_length_powi [OF b] by simp_all
  have "(2::real) powi (?d - 1) = 2 powi (?la - 1) / 2 powi ?lb"
    using power_int_diff [of "2::real" "?la - 1" ?lb] by (simp add: algebra_simps)
  also have "\<dots> \<le> real a / 2 powi ?lb"
    using ba(1) by (simp add: divide_right_mono)
  also have "\<dots> < ?x"
    using bb(2) rb a by (simp add: divide_strict_left_mono)
  finally have lo: "2 powi (?d - 1) < ?x" .
  have "?x \<le> real a / 2 powi (?lb - 1)"
    by (rule frac_le) (use bb(1) in simp_all)
  also have "\<dots> < 2 powi ?la / 2 powi (?lb - 1)"
    using ba(2) by (simp add: divide_strict_right_mono)
  also have "\<dots> = (2::real) powi (?d + 1)"
    using power_int_diff [of "2::real" ?la "?lb - 1"] by (simp add: algebra_simps)
  finally have hi: "?x < 2 powi (?d + 1)" .
  show ?thesis
  proof (cases "2 powi ?d \<le> ?x")
    case True
    then have "quotient_exponent a b = ?d"
      using exponent_test [OF b, of ?d a] by (simp add: quotient_exponent_def Let_def)
    then show ?thesis
      using True hi by simp
  next
    case False
    then have "quotient_exponent a b = ?d - 1"
      using exponent_test [OF b, of ?d a] by (simp add: quotient_exponent_def Let_def)
    then show ?thesis
      using False lo by simp
  qed
qed

lemma quotient_mantissa_close:
  assumes a: "0 < a" and b: "0 < b"
  shows "\<bar>real (quotient_mantissa a b)
          - real a / real b * 2 powi (52 - quotient_exponent a b)\<bar> \<le> 1 / 2"
proof (cases "0 \<le> 52 - quotient_exponent a b")
  case True
  let ?s = "nat (52 - quotient_exponent a b)"
  have e1: "real a / real b * 2 powi (52 - quotient_exponent a b) = real (a * 2 ^ ?s) / real b"
    using True by (simp add: power_int_def)
  have e2: "quotient_mantissa a b = round_half_even (a * 2 ^ ?s) b"
    using True by (simp add: quotient_mantissa_def Let_def)
  show ?thesis
    unfolding e1 e2 using b by (rule round_half_even_close)
next
  case False
  let ?s = "nat (- (52 - quotient_exponent a b))"
  have e1: "real a / real b * 2 powi (52 - quotient_exponent a b) = real a / real (b * 2 ^ ?s)"
    using False by (simp add: power_int_def field_simps)
  have e2: "quotient_mantissa a b = round_half_even a (b * 2 ^ ?s)"
    using False by (simp add: quotient_mantissa_def Let_def)
  have "0 < b * 2 ^ ?s"
    using b by simp
  then show ?thesis
    unfolding e1 e2 by (rule round_half_even_close)
qed

lemma scaled_quotient_bounds:
  assumes a: "0 < a" and b: "0 < b"
  shows "2 ^ 52 \<le> real a / real b * 2 powi (52 - quotient_exponent a b)
       \<and> real a / real b * 2 powi (52 - quotient_exponent a b) < 2 ^ 53"
proof -
  let ?e = "quotient_exponent a b"
  let ?x = "real a / real b"
  have p: "0 < (2::real) powi (52 - ?e)"
    by simp
  have "(2::real) powi ?e * 2 powi (52 - ?e) = 2 powi 52"
    using power_int_add [of "2::real" ?e "52 - ?e"] by simp
  then have lo: "(2::real) powi ?e * 2 powi (52 - ?e) = 2 ^ 52"
    by simp
  have "(2::real) powi (?e + 1) * 2 powi (52 - ?e) = 2 powi 53"
    using power_int_add [of "2::real" "?e + 1" "52 - ?e"] by simp
  then have hi: "(2::real) powi (?e + 1) * 2 powi (52 - ?e) = 2 ^ 53"
    by simp
  have "2 powi ?e * 2 powi (52 - ?e) \<le> ?x * 2 powi (52 - ?e)"
    using quotient_exponent_bounds [OF a b] p by (simp only: mult_le_cancel_right_pos)
  moreover have "?x * 2 powi (52 - ?e) < 2 powi (?e + 1) * 2 powi (52 - ?e)"
    using quotient_exponent_bounds [OF a b] p by (simp only: mult_less_cancel_right_pos)
  ultimately show ?thesis
    by (simp only: lo hi)
qed

lemma nat_near:
  assumes "\<bar>real n - m\<bar> \<le> 1 / 2" "real L \<le> m" "m < real U"
  shows "L \<le> n \<and> n \<le> U"
proof -
  have "real L < real n + 1"
    using assms(1,2) by linarith
  then have "real L < real (n + 1)"
    by simp
  then have "L < n + 1"
    by (simp only: of_nat_less_iff)
  moreover have "real n < real U + 1"
    using assms(1,3) by linarith
  then have "real n < real (U + 1)"
    by simp
  then have "n < U + 1"
    by (simp only: of_nat_less_iff)
  ultimately show ?thesis
    by simp
qed

lemma quotient_mantissa_range:
  assumes a: "0 < a" and b: "0 < b"
  shows "2 ^ 52 \<le> quotient_mantissa a b \<and> quotient_mantissa a b \<le> 2 ^ 53"
proof -
  let ?m = "real a / real b * 2 powi (52 - quotient_exponent a b)"
  have c: "\<bar>real (quotient_mantissa a b) - ?m\<bar> \<le> 1 / 2"
    using a b by (rule quotient_mantissa_close)
  have "real (2 ^ 52) \<le> ?m" "?m < real (2 ^ 53)"
    using scaled_quotient_bounds [OF a b] by simp_all
  with c show ?thesis
    by (rule nat_near)
qed

lemma double_quotient_error:
  assumes a: "0 < a" and b: "0 < b"
  shows "\<bar>double_quotient a b - real a / real b\<bar> \<le> real a / real b / 2 ^ 53"
proof -
  let ?e = "quotient_exponent a b"
  let ?x = "real a / real b"
  let ?n = "real (quotient_mantissa a b)"
  have u: "(2::real) powi (52 - ?e) * 2 powi (?e - 52) = 1"
    using power_int_add [of "2::real" "52 - ?e" "?e - 52"] by simp
  have d: "double_quotient a b = ?n * 2 powi (?e - 52)"
    using a by (simp add: double_quotient_def)
  have "double_quotient a b - ?x = (?n - ?x * 2 powi (52 - ?e)) * 2 powi (?e - 52)"
    using u by (simp add: d algebra_simps)
  then have "\<bar>double_quotient a b - ?x\<bar> = \<bar>?n - ?x * 2 powi (52 - ?e)\<bar> * 2 powi (?e - 52)"
    by (simp add: abs_mult)
  also have "\<dots> \<le> 1 / 2 * 2 powi (?e - 52)"
    using quotient_mantissa_close [OF a b] by (intro mult_right_mono) simp_all
  also have "\<dots> = 2 powi ?e / 2 ^ 53"
    using power_int_diff [of "2::real" ?e 52] by simp
  also have "\<dots> \<le> ?x / 2 ^ 53"
    using quotient_exponent_bounds [OF a b] by (simp add: divide_right_mono)
  finally show ?thesis .
qed

subsection \<open>Runs on the example inputs\<close>

lemmas run_defs =
  processBatch_def dbClient_connect_def dbClient_end_def record_call_def initial_locals_def
  chunk_loop.simps process_chunk_def embeddingBatchSize_def env_AI_run_def message_loop.simps
  process_message_def prepare_conditions_def add_condition_def push_condition_def
  dbClient_query_select_def similarity_select_def param_at_def satisfies_def column_def
  similarityScore_of_def dbClient_query_insert_def stored_record_def success_response_def
  js_div_def double_quotient_examples accepted_message_def Let_def

lemma length_example_messages: "length example_messages = 4"
  by (simp add: example_messages_def)

lemma example_run:
  "processBatch example_env example_request [''topic'', ''subindustry''] example_world
     = (Inr example_response, example_final_world)"
  by (simp add: run_defs example_env_def example_request_def example_world_def uniqueMessages_example
      example_response_def example_final_world_def example_row_def msg_def example_embedding_def
      length_example_messages)

lemma example_third_run:
  "processBatch example_env example_third_request [''topic'', ''subindustry''] example_world
     = (Inr example_third_response, example_third_world)"
  by (simp add: run_defs example_env_def example_request_def example_third_request_def
      example_world_def uniqueMessages_def example_response_def example_third_response_def
      example_third_world_def example_row_def msg_def example_embedding_def)

lemma example_empty_run:
  "processBatch example_env (example_request\<lparr>messages := []\<rparr>) [''topic'', ''subindustry'']
      example_world
     = (Inr example_empty_response,
        example_world\<lparr>calls := [(DbConnect, True), (DbEnd, True)]\<rparr>)"
  by (simp add: run_defs example_env_def example_request_def example_world_def uniqueMessages_def
      example_response_def example_empty_response_def)

lemma example_failing_run:
  "processBatch example_failing_env example_request [''topic'', ''subindustry''] example_world
     = (Inl DatabaseError, example_failed_world)"
  by (simp add: run_defs example_failing_env_def example_env_def example_request_def
      example_world_def uniqueMessages_example example_failed_world_def example_failed_calls_def
      example_row_def msg_def example_embedding_def length_example_messages)

lemma example_short_run:
  "processBatch example_short_env example_request [''topic'', ''subindustry''] example_world
     = (Inl TypeError, example_short_world)"
  by (simp add: run_defs example_short_env_def example_env_def example_request_def
      example_world_def uniqueMessages_example example_short_world_def example_short_calls_def
      example_row_def msg_def length_example_messages)

lemma example_fetch:
  "fetch example_env example_http_request example_world
     = (\<lparr>http_status = 200, body = ResultBody example_response\<rparr>, example_final_world)"
proof -
  have "resolved_filter_by example_request = [''topic'', ''subindustry'']"
    by (simp add: resolved_filter_by_def example_request_def)
  moreover have "authorized example_env example_http_request"
    by (simp add: authorized_def example_env_def example_http_request_def)
  moreover have "table_name example_request \<noteq> [] \<and> job_id example_request \<noteq> []
      \<and> topic example_request \<noteq> [] \<and> industry example_request \<noteq> []"
    by (simp add: example_request_def)
  ultimately show ?thesis
    by (simp add: fetch_def example_http_request_def example_run)
qed

subsection \<open>Statistics and the accepted list\<close>

lemma process_message_locals:
  assumes "process_message env data fb embeddings batch j l w = (Inr l1, w1)"
  shows "l1 = l\<lparr>stats := (stats l)\<lparr>dropped := dropped (stats l) + 1\<rparr>\<rparr>
       \<or> l1 = l\<lparr>nonDuplicateMessages := nonDuplicateMessages l @ [batch ! j]\<rparr>"
  using assms by (cases rule: process_message_cases) auto

lemma counted_step:
  assumes "counted l0 pre l"
    and "l1 = l\<lparr>stats := (stats l)\<lparr>dropped := dropped (stats l) + 1\<rparr>\<rparr>
       \<or> l1 = l\<lparr>nonDuplicateMessages := nonDuplicateMessages l @ [m]\<rparr>"
  shows "counted l0 (pre @ [m]) l1"
proof -
  obtain acc where acc: "nonDuplicateMessages l = nonDuplicateMessages l0 @ acc" "subseq acc pre"
    "stats l = (stats l0)\<lparr>dropped := dropped (stats l0) + (length pre - length acc)\<rparr>"
    using assms(1) by (auto simp: counted_def)
  have le: "length acc \<le> length pre"
    using acc(2) by (rule list_emb_length)
  from assms(2) show ?thesis
  proof
    assume l1: "l1 = l\<lparr>stats := (stats l)\<lparr>dropped := dropped (stats l) + 1\<rparr>\<rparr>"
    have "subseq acc (pre @ [m])"
      using acc(2) by (rule subseq_rev_drop_many)
    moreover have "stats l1
        = (stats l0)\<lparr>dropped := dropped (stats l0) + (length (pre @ [m]) - length acc)\<rparr>"
      using l1 acc(3) le by simp
    moreover have "nonDuplicateMessages l1 = nonDuplicateMessages l0 @ acc"
      using l1 acc(1) by simp
    ultimately show ?thesis
      unfolding counted_def by blast
  next
    assume l1: "l1 = l\<lparr>nonDuplicateMessages := nonDuplicateMessages l @ [m]\<rparr>"
    have "subseq (acc @ [m]) (pre @ [m])"
      using acc(2) by (simp add: list_emb_append_mono)
    moreover have "stats l1
        = (stats l0)\<lparr>dropped := dropped (stats l0) + (length (pre @ [m]) - length (acc @ [m]))\<rparr>"
      using l1 acc(3) by simp
    moreover have "nonDuplicateMessages l1 = nonDuplicateMessages l0 @ (acc @ [m])"
      using l1 acc(1) by simp
    ultimately show ?thesis
      unfolding counted_def by blast
  qed
qed

lemma subseq_distinct_map:
  assumes "subseq xs ys" "distinct (map f ys)"
  shows "distinct (map f xs)"
proof -
  have "subseq (map f xs) (map f ys)"
    using assms(1) by (rule subseq_map)
  then have "map f xs \<in> set (subseqs (map f ys))"
    by simp
  then show ?thesis
    using assms(2) by (rule subseqs_distinctD)
qed

lemma chunk_loop_counted:
  assumes "chunk_loop env data fb um 0 l0 w = (Inr l, w')"
  shows "counted l0 um l"
proof -
  have "case chunk_loop env data fb um 0 l0 w of
          (Inl e, w') \<Rightarrow> True | (Inr l', w') \<Rightarrow> counted l0 um l'"
  proof (rule chunk_loop_rule [where P = "\<lambda>pre l w. counted l0 pre l" and F = "\<lambda>w. True"])
    show "counted l0 (take 0 um) l0"
      by (simp add: counted_def)
  next
    fix pre embeddings batch j l w l1 w1
    assume c: "counted l0 pre l"
      and p: "process_message env data fb embeddings batch j l w = (Inr l1, w1)"
    from c process_message_locals [OF p] show "counted l0 (pre @ [batch ! j]) l1"
      by (rule counted_step)
  qed (assumption | rule TrueI)+
  then show ?thesis
    using assms by simp
qed

lemma processBatch_success:
  assumes "processBatch env data fb w = (Inr resp, w')"
  obtains l where "resp = success_response data fb l"
    and "counted (initial_locals data) (uniqueMessages (messages data)) l"
proof -
  obtain u w1 where c: "dbClient_connect env w = (Inr u, w1)"
    using assms by (auto simp: processBatch_def split: prod.splits sum.splits)
  obtain l w2 where l: "chunk_loop env data fb (uniqueMessages (messages data)) 0 (initial_locals data) w1
      = (Inr l, w2)" and r: "resp = success_response data fb l"
    using assms c by (auto simp: processBatch_def split: prod.splits sum.splits)
  from l have "counted (initial_locals data) (uniqueMessages (messages data)) l"
    by (rule chunk_loop_counted)
  with r show ?thesis
    by (rule that)
qed

lemma success_stats:
  assumes "counted (initial_locals data) (uniqueMessages (messages data)) l"
  obtains acc where "subseq acc (uniqueMessages (messages data))"
    and "r_non_duplicate_messages (resp_data (success_response data fb l)) = map accepted_message acc"
    and "r_stats (resp_data (success_response data fb l))
       = \<lparr>received = length (messages data), inserted = length acc,
          dropped = (length (messages data) - length (uniqueMessages (messages data)))
                     + (length (uniqueMessages (messages data)) - length acc),
          insertion_rate = js_div (length acc) (length (messages data))\<rparr>"
proof -
  obtain acc where acc: "nonDuplicateMessages l = acc" "subseq acc (uniqueMessages (messages data))"
    "stats l = (stats (initial_locals data))\<lparr>dropped := dropped (stats (initial_locals data))
        + (length (uniqueMessages (messages data)) - length acc)\<rparr>"
    using assms by (auto simp: counted_def initial_locals_def Let_def)
  show ?thesis
  proof (rule that [of acc])
    show "subseq acc (uniqueMessages (messages data))" by (rule acc(2))
    show "r_non_duplicate_messages (resp_data (success_response data fb l)) = map accepted_message acc"
      by (simp add: success_response_def Let_def acc(1))
    show "r_stats (resp_data (success_response data fb l))
       = \<lparr>received = length (messages data), inserted = length acc,
          dropped = (length (messages data) - length (uniqueMessages (messages data)))
                     + (length (uniqueMessages (messages data)) - length acc),
          insertion_rate = js_div (length acc) (length (messages data))\<rparr>"
      by (simp add: success_response_def Let_def acc(1) acc(3) initial_locals_def)
  qed
qed

text \<open>
  C4. In the statistics of a successful response, \<open>received\<close> is the number of submitted
  messages and equals \<open>inserted + dropped\<close>, where \<open>inserted\<close> is the number of accepted
  messages returned and \<open>dropped\<close> is the number of exact duplicates plus the number of
  messages rejected by the similarity gate.
\<close>

theorem stats_balance:
  assumes "processBatch env data fb w = (Inr resp, w')"
  shows "received (r_stats (resp_data resp))
           = inserted (r_stats (resp_data resp)) + dropped (r_stats (resp_data resp))
       \<and> received (r_stats (resp_data resp)) = length (messages data)
       \<and> inserted (r_stats (resp_data resp)) = length (r_non_duplicate_messages (resp_data resp))
       \<and> dropped (r_stats (resp_data resp))
           = (length (messages data) - length (uniqueMessages (messages data)))
             + (length (uniqueMessages (messages data)) - inserted (r_stats (resp_data resp)))"
proof -
  from assms obtain l where r: "resp = success_response data fb l"
    and c: "counted (initial_locals data) (uniqueMessages (messages data)) l"
    by (rule processBatch_success)
  from c obtain acc where acc: "subseq acc (uniqueMessages (messages data))"
    "r_non_duplicate_messages (resp_data (success_response data fb l)) = map accepted_message acc"
    "r_stats (resp_data (success_response data fb l))
       = \<lparr>received = length (messages data), inserted = length acc,
          dropped = (length (messages data) - length (uniqueMessages (messages data)))
                     + (length (uniqueMessages (messages data)) - length acc),
          insertion_rate = js_div (length acc) (length (messages data))\<rparr>"
    by (rule success_stats)
  have "length acc \<le> length (uniqueMessages (messages data))"
    using acc(1) by (rule list_emb_length)
  moreover have "length (uniqueMessages (messages data)) \<le> length (messages data)"
    using uniqueMessages_subseq by (rule list_emb_length)
  ultimately show ?thesis
    using acc(2,3) r by simp
qed

theorem stats_balance_witness:
  "processBatch example_env example_request [''topic'', ''subindustry''] example_world
     = (Inr example_response, example_final_world)
   \<and> received (r_stats (resp_data example_response))
       = inserted (r_stats (resp_data example_response)) + dropped (r_stats (resp_data example_response))
   \<and> length (messages example_request) = 4
   \<and> dropped (r_stats (resp_data example_response)) = 2"
  using stats_balance [OF example_run] example_run
  by (simp add: example_response_def)

text \<open>
  C5 (as amended). In a successful response with \<open>received > 0\<close>, \<open>insertion_rate\<close> is
  the double that \<open>inserted / received\<close> yields: the quotient rounded to the nearest
  double, so within a relative error of \<open>2^-53\<close> of the quotient; for \<open>inserted > 0\<close> it
  is a mantissa of 53 bits, within one half of the scaled quotient, times a power of two.
  When \<open>received = 0\<close> it is the value of \<open>0 / 0\<close>, which is \<open>NaN\<close>.
\<close>

theorem insertion_rate_value:
  assumes "processBatch env data fb w = (Inr resp, w')"
  shows "(0 < received (r_stats (resp_data resp)) \<longrightarrow>
            insertion_rate (r_stats (resp_data resp))
              = Finite (double_quotient (inserted (r_stats (resp_data resp)))
                          (received (r_stats (resp_data resp))))
            \<and> \<bar>double_quotient (inserted (r_stats (resp_data resp)))
                   (received (r_stats (resp_data resp)))
                 - real (inserted (r_stats (resp_data resp)))
                     / real (received (r_stats (resp_data resp)))\<bar>
                \<le> real (inserted (r_stats (resp_data resp)))
                     / real (received (r_stats (resp_data resp))) / 2 ^ 53
            \<and> (0 < inserted (r_stats (resp_data resp)) \<longrightarrow>
                 2 ^ 52 \<le> quotient_mantissa (inserted (r_stats (resp_data resp)))
                            (received (r_stats (resp_data resp)))
                 \<and> quotient_mantissa (inserted (r_stats (resp_data resp)))
                       (received (r_stats (resp_data resp))) \<le> 2 ^ 53
                 \<and> \<bar>real (quotient_mantissa (inserted (r_stats (resp_data resp)))
                             (received (r_stats (resp_data resp))))
                      - real (inserted (r_stats (resp_data resp)))
                          / real (received (r_stats (resp_data resp)))
                          * 2 powi (52 - quotient_exponent (inserted (r_stats (resp_data resp)))
                                          (received (r_stats (resp_data resp))))\<bar> \<le> 1 / 2))
       \<and> (received (r_stats (resp_data resp)) = 0 \<longrightarrow>
            insertion_rate (r_stats (resp_data resp)) = NaN)"
proof -
  from assms obtain l where r: "resp = success_response data fb l"
    and c: "counted (initial_locals data) (uniqueMessages (messages data)) l"
    by (rule processBatch_success)
  from c obtain acc where acc: "subseq acc (uniqueMessages (messages data))"
    "r_non_duplicate_messages (resp_data (success_response data fb l)) = map accepted_message acc"
    "r_stats (resp_data (success_response data fb l))
       = \<lparr>received = length (messages data), inserted = length acc,
          dropped = (length (messages data) - length (uniqueMessages (messages data)))
                     + (length (uniqueMessages (messages data)) - length acc),
          insertion_rate = js_div (length acc) (length (messages data))\<rparr>"
    by (rule success_stats)
  let ?i = "length acc" and ?r = "length (messages data)"
  have le: "?i \<le> ?r"
    using acc(1) uniqueMessages_subseq [of "messages data"]
    by (meson list_emb_length order_trans)
  have st: "received (r_stats (resp_data resp)) = ?r" "inserted (r_stats (resp_data resp)) = ?i"
    "insertion_rate (r_stats (resp_data resp)) = js_div ?i ?r"
    using acc(3) r by simp_all
  have pos: "insertion_rate (r_stats (resp_data resp)) = Finite (double_quotient ?i ?r)
      \<and> \<bar>double_quotient ?i ?r - real ?i / real ?r\<bar> \<le> real ?i / real ?r / 2 ^ 53
      \<and> (0 < ?i \<longrightarrow> 2 ^ 52 \<le> quotient_mantissa ?i ?r \<and> quotient_mantissa ?i ?r \<le> 2 ^ 53
            \<and> \<bar>real (quotient_mantissa ?i ?r)
                 - real ?i / real ?r * 2 powi (52 - quotient_exponent ?i ?r)\<bar> \<le> 1 / 2)"
    if "0 < ?r"
  proof (intro conjI impI)
    show "insertion_rate (r_stats (resp_data resp)) = Finite (double_quotient ?i ?r)"
      using that by (simp add: st(3) js_div_def)
    show "\<bar>double_quotient ?i ?r - real ?i / real ?r\<bar> \<le> real ?i / real ?r / 2 ^ 53"
    proof (cases "?i = 0")
      case True
      then show ?thesis by simp
    next
      case False
      then show ?thesis
        using that by (intro double_quotient_error) simp_all
    qed
    show "2 ^ 52 \<le> quotient_mantissa ?i ?r" "quotient_mantissa ?i ?r \<le> 2 ^ 53" if "0 < ?i"
      using quotient_mantissa_range [OF that \<open>0 < ?r\<close>] by simp_all
    show "\<bar>real (quotient_mantissa ?i ?r)
                 - real ?i / real ?r * 2 powi (52 - quotient_exponent ?i ?r)\<bar> \<le> 1 / 2"
      if "0 < ?i"
      using that \<open>0 < ?r\<close> by (rule quotient_mantissa_close)
  qed
  have zero: "insertion_rate (r_stats (resp_data resp)) = NaN" if "?r = 0"
    using that le by (simp add: st(3) js_div_def)
  show ?thesis
    unfolding st(1,2) using pos zero by blast
qed

theorem insertion_rate_value_witness:
  "processBatch example_env example_third_request [''topic'', ''subindustry''] example_world
     = (Inr example_third_response, example_third_world)
   \<and> received (r_stats (resp_data example_third_response)) = 3
   \<and> inserted (r_stats (resp_data example_third_response)) = 1
   \<and> insertion_rate (r_stats (resp_data example_third_response))
       = Finite (6004799503160661 / 2 ^ 54)
   \<and> \<bar>6004799503160661 / 2 ^ 54 - 1 / (3::real)\<bar> \<le> 1 / 3 / 2 ^ 53
   \<and> quotient_mantissa 1 3 = 6004799503160661
   \<and> 2 ^ 52 \<le> quotient_mantissa 1 3 \<and> quotient_mantissa 1 3 \<le> 2 ^ 53
   \<and> processBatch example_env (example_request\<lparr>messages := []\<rparr>) [''topic'', ''subindustry'']
        example_world
       = (Inr example_empty_response, example_world\<lparr>calls := [(DbConnect, True), (DbEnd, True)]\<rparr>)
   \<and> received (r_stats (resp_data example_empty_response)) = 0
   \<and> insertion_rate (r_stats (resp_data example_empty_response)) = NaN"
proof -
  have a: "received (r_stats (resp_data example_third_response)) = 3"
    "inserted (r_stats (resp_data example_third_response)) = 1"
    and b: "received (r_stats (resp_data example_empty_response)) = 0"
    by (simp_all add: example_third_response_def example_response_def example_empty_response_def)
  have p: "0 < received (r_stats (resp_data example_third_response))"
    using a by simp
  note t = insertion_rate_value [OF example_third_run]
  have c: "insertion_rate (r_stats (resp_data example_third_response))
      = Finite (6004799503160661 / 2 ^ 54)"
    using t p unfolding a by (simp only: double_quotient_third)
  have e: "\<bar>6004799503160661 / 2 ^ 54 - 1 / (3::real)\<bar> \<le> 1 / 3 / 2 ^ 53"
    using t p unfolding a by (simp only: double_quotient_third of_nat_1 of_nat_numeral)
  have q: "0 < inserted (r_stats (resp_data example_third_response))"
    using a by simp
  have m: "2 ^ 52 \<le> quotient_mantissa 1 3" "quotient_mantissa 1 3 \<le> 2 ^ 53"
    using t p q unfolding a by simp_all
  have d: "insertion_rate (r_stats (resp_data example_empty_response)) = NaN"
    using insertion_rate_value [OF example_empty_run] b by blast
  show ?thesis
    using example_third_run example_empty_run a b c d e m quotient_mantissa_third
    by (intro conjI)
qed

theorem insertion_rate_empty_batch_counterexample:
  "fst (processBatch example_env (example_request\<lparr>messages := []\<rparr>) [''topic'', ''subindustry'']
          example_world) = Inr example_empty_response
   \<and> received (r_stats (resp_data example_empty_response)) = 0
   \<and> insertion_rate (r_stats (resp_data example_empty_response)) \<noteq> Finite 0"
  by (simp add: example_empty_run example_empty_response_def)

text \<open>
  C10. The \<open>non_duplicate_messages\<close> of a successful response are the \<open>message_id\<close> and
  \<open>content\<close> of a subsequence of the submitted messages, in submission order, and their
  contents are pairwise distinct, whatever the store and the embedding provider do.
\<close>

theorem accepted_subsequence:
  assumes "processBatch env data fb w = (Inr resp, w')"
  shows "\<exists>acc. subseq acc (messages data)
           \<and> r_non_duplicate_messages (resp_data resp) = map accepted_message acc
           \<and> distinct (map content acc)
           \<and> distinct (map out_content (r_non_duplicate_messages (resp_data resp)))"
proof -
  from assms obtain l where r: "resp = success_response data fb l"
    and c: "counted (initial_locals data) (uniqueMessages (messages data)) l"
    by (rule processBatch_success)
  from c obtain acc where acc: "subseq acc (uniqueMessages (messages data))"
    "r_non_duplicate_messages (resp_data (success_response data fb l)) = map accepted_message acc"
    by (rule success_stats)
  have s: "subseq acc (messages data)"
    using acc(1) uniqueMessages_subseq by (rule subseq_order.trans)
  have d: "distinct (map content acc)"
    using acc(1) uniqueMessages_distinct by (rule subseq_distinct_map)
  have e: "r_non_duplicate_messages (resp_data resp) = map accepted_message acc"
    using acc(2) r by simp
  have "map out_content (map accepted_message acc) = map content acc"
    by (simp add: accepted_message_def)
  then have "distinct (map out_content (r_non_duplicate_messages (resp_data resp)))"
    using d by (simp only: e)
  with s d e show ?thesis
    by blast
qed

theorem accepted_subsequence_witness:
  "processBatch example_env example_request [''topic'', ''subindustry''] example_world
     = (Inr example_response, example_final_world)
   \<and> (\<exists>acc. subseq acc example_messages
          \<and> [\<lparr>out_message_id = ''m1'', out_content = ''A''\<rparr>,
              \<lparr>out_message_id = ''m3'', out_content = ''B''\<rparr>] = map accepted_message acc
          \<and> distinct (map content acc))"
  using accepted_subsequence [OF example_run] example_run
  by (simp add: example_response_def example_request_def)

lemma subseq_short:
  assumes "subseq xs ys" "length ys \<le> 1"
  shows "xs = [] \<or> xs = ys"
proof (cases xs)
  case Nil
  then show ?thesis by simp
next
  case (Cons x xs')
  have "length xs \<le> length ys"
    using assms(1) by (rule list_emb_length)
  then have "length xs = length ys"
    using assms(2) Cons by simp
  with assms(1) show ?thesis
    by (simp add: subseq_same_length)
qed

text \<open>
  In the accepted list of a successful response too, the messages with a given content are
  either absent (the first occurrence was rejected by the gate) or the first occurrence
  alone.
\<close>

lemma accepted_first_occurrence:
  assumes "processBatch env data fb w = (Inr resp, w')"
  shows "\<exists>acc. r_non_duplicate_messages (resp_data resp) = map accepted_message acc
           \<and> (\<forall>c. filter (\<lambda>m. content m = c) acc = []
                  \<or> filter (\<lambda>m. content m = c) acc
                      = take 1 (filter (\<lambda>m. content m = c) (messages data)))"
proof -
  from assms obtain l where r: "resp = success_response data fb l"
    and c: "counted (initial_locals data) (uniqueMessages (messages data)) l"
    by (rule processBatch_success)
  from c obtain acc where acc: "subseq acc (uniqueMessages (messages data))"
    "r_non_duplicate_messages (resp_data (success_response data fb l)) = map accepted_message acc"
    by (rule success_stats)
  have "filter (\<lambda>m. content m = c) acc = []
          \<or> filter (\<lambda>m. content m = c) acc
              = take 1 (filter (\<lambda>m. content m = c) (messages data))" for c
  proof -
    have "subseq (filter (\<lambda>m. content m = c) acc)
        (filter (\<lambda>m. content m = c) (uniqueMessages (messages data)))"
      using acc(1) by (rule subseq_filter)
    then have "subseq (filter (\<lambda>m. content m = c) acc)
        (take 1 (filter (\<lambda>m. content m = c) (messages data)))"
      by (simp add: uniqueMessages_def exact_loop_filter)
    then show ?thesis
      by (rule subseq_short) simp
  qed
  then show ?thesis
    using acc(2) r by blast
qed

text \<open>
  C3 (as amended). The exact-match filter (lines 167-176) keeps the message at position
  \<open>i\<close> exactly when no earlier message of the batch has the same content, compared as raw
  strings: its result is the ordered subsequence of first occurrences. So among the messages
  of the batch with a given content the filter's output holds exactly the first one; the
  accepted list of a successful response holds that first one or, when the gate rejects it,
  none of them.
\<close>

theorem exact_match_filter_first_occurrences:
  "uniqueMessages ms = nths ms {i. \<forall>j<i. content (ms ! j) \<noteq> content (ms ! i)}
   \<and> (\<forall>c. filter (\<lambda>m. content m = c) (uniqueMessages ms)
            = take 1 (filter (\<lambda>m. content m = c) ms))
   \<and> (\<forall>env data fb w resp w'.
         messages data = ms \<and> processBatch env data fb w = (Inr resp, w') \<longrightarrow>
         (\<exists>acc. r_non_duplicate_messages (resp_data resp) = map accepted_message acc
            \<and> (\<forall>c. filter (\<lambda>m. content m = c) acc = []
                   \<or> filter (\<lambda>m. content m = c) acc
                       = take 1 (filter (\<lambda>m. content m = c) ms))))"
proof (intro conjI allI impI)
  show "uniqueMessages ms = nths ms {i. \<forall>j<i. content (ms ! j) \<noteq> content (ms ! i)}"
    by (simp add: uniqueMessages_def exact_loop_nths)
  show "filter (\<lambda>m. content m = c) (uniqueMessages ms)
          = take 1 (filter (\<lambda>m. content m = c) ms)" for c
    by (simp add: uniqueMessages_def exact_loop_filter)
  show "\<exists>acc. r_non_duplicate_messages (resp_data resp) = map accepted_message acc
            \<and> (\<forall>c. filter (\<lambda>m. content m = c) acc = []
                   \<or> filter (\<lambda>m. content m = c) acc
                       = take 1 (filter (\<lambda>m. content m = c) ms))"
    if "messages data = ms \<and> processBatch env data fb w = (Inr resp, w')"
    for env data fb w resp w'
    using that accepted_first_occurrence [of env data fb w resp w'] by auto
qed

theorem exact_match_filter_first_occurrences_witness:
  "nths example_messages
      {i. \<forall>j<i. content (example_messages ! j) \<noteq> content (example_messages ! i)}
     = [msg ''m1'' ''A'', msg ''m3'' ''B'', msg ''m4'' ''A!'']
   \<and> filter (\<lambda>m. content m = ''A'') (uniqueMessages example_messages) = [msg ''m1'' ''A'']
   \<and> processBatch example_env example_request [''topic'', ''subindustry''] example_world
       = (Inr example_response, example_final_world)
   \<and> (\<exists>acc. r_non_duplicate_messages (resp_data example_response) = map accepted_message acc
          \<and> (filter (\<lambda>m. content m = ''A'') acc = []
               \<or> filter (\<lambda>m. content m = ''A'') acc = [msg ''m1'' ''A'']))"
proof -
  note t = exact_match_filter_first_occurrences [of example_messages]
  have a: "nths example_messages
      {i. \<forall>j<i. content (example_messages ! j) \<noteq> content (example_messages ! i)}
      = [msg ''m1'' ''A'', msg ''m3'' ''B'', msg ''m4'' ''A!'']"
    using t by (simp only: uniqueMessages_example)
  have f: "take 1 (filter (\<lambda>m. content m = ''A'') example_messages) = [msg ''m1'' ''A'']"
    by (simp add: example_messages_def msg_def)
  have "filter (\<lambda>m. content m = ''A'') (uniqueMessages example_messages)
      = take 1 (filter (\<lambda>m. content m = ''A'') example_messages)"
    using t by blast
  then have b: "filter (\<lambda>m. content m = ''A'') (uniqueMessages example_messages) = [msg ''m1'' ''A'']"
    by (simp only: f)
  have m: "messages example_request = example_messages"
    by (simp add: example_request_def)
  from t m example_run obtain acc where
    acc: "r_non_duplicate_messages (resp_data example_response) = map accepted_message acc"
    and c: "\<forall>c. filter (\<lambda>m. content m = c) acc = []
                   \<or> filter (\<lambda>m. content m = c) acc
                       = take 1 (filter (\<lambda>m. content m = c) example_messages)"
    by blast
  from c have "filter (\<lambda>m. content m = ''A'') acc = []
      \<or> filter (\<lambda>m. content m = ''A'') acc = take 1 (filter (\<lambda>m. content m = ''A'') example_messages)"
    by (rule spec)
  then have "filter (\<lambda>m. content m = ''A'') acc = []
      \<or> filter (\<lambda>m. content m = ''A'') acc = [msg ''m1'' ''A'']"
    by (simp only: f)
  with acc have d: "\<exists>acc. r_non_duplicate_messages (resp_data example_response) = map accepted_message acc
          \<and> (filter (\<lambda>m. content m = ''A'') acc = []
               \<or> filter (\<lambda>m. content m = ''A'') acc = [msg ''m1'' ''A''])"
    by blast
  from a b example_run d show ?thesis
    by (intro conjI)
qed

theorem first_occurrence_rejected_counterexample:
  "content (msg ''m1'' ''A'') = content (msg ''m2'' ''A'')
   \<and> messages example_twice_request = [msg ''m1'' ''A'', msg ''m2'' ''A'']
   \<and> processBatch example_env example_twice_request [''topic'', ''subindustry''] example_seen_world
       = (Inr example_twice_response,
          example_seen_world\<lparr>calls := [(DbConnect, True), (AiRun [''A''], True),
             (DbSelect, True), (DbEnd, True)]\<rparr>)
   \<and> r_non_duplicate_messages (resp_data example_twice_response) = []"
  by (simp add: run_defs example_env_def example_request_def example_twice_request_def
      example_seen_world_def uniqueMessages_def example_response_def example_twice_response_def
      example_row_def msg_def example_embedding_def)

subsection \<open>Sequential visibility\<close>

lemma select_nearest:
  assumes "similarity_select d tbl conds k ps = Inr rows" "param_at ps k = Some (PVector q)"
  shows "\<forall>r \<in> set tbl. list_all (satisfies ps r) conds
           \<longrightarrow> 1 - d (col_embedding r) q \<le> similarityScore_of rows"
proof (intro ballI impI)
  fix r
  assume r: "r \<in> set tbl" "list_all (satisfies ps r) conds"
  let ?f = "\<lambda>r. d (col_embedding r) q"
  let ?xs = "filter (\<lambda>r. list_all (satisfies ps r) conds) tbl"
  let ?ys = "sort_key ?f ?xs"
  have rows: "rows = map (\<lambda>r. (col_content r, 1 - ?f r)) (take 1 ?ys)"
    using assms by (simp add: similarity_select_def)
  have "r \<in> set ?ys"
    using r by simp
  then obtain y ys' where ys: "?ys = y # ys'"
    by (cases ?ys) auto
  have "sorted (map ?f ?ys)"
    by (rule sorted_sort_key)
  then have "\<forall>z \<in> set ?ys. ?f y \<le> ?f z"
    unfolding ys by auto
  then have "?f y \<le> ?f r"
    using \<open>r \<in> set ?ys\<close> by blast
  moreover have "similarityScore_of rows = 1 - ?f y"
    unfolding rows ys by (simp add: similarityScore_of_def)
  ultimately show "1 - d (col_embedding r) q \<le> similarityScore_of rows"
    by simp
qed

lemma in_scope_where:
  "list_all (satisfies (queryParams (prepare_conditions fb data) @ [PVector e]) r)
      (whereConditions (prepare_conditions fb data)) \<longleftrightarrow> in_scope fb data r"
  unfolding in_scope_def by (rule where_clause_meaning)

lemma column_stored_record:
  "c \<in> filterable_fields \<Longrightarrow> column c (stored_record data m e s) = Some (request_field data c)"
  by (auto simp: filterable_fields_def column_def stored_record_def request_field_def)

lemma in_scope_stored_record: "in_scope fb data (stored_record data m e s)"
  by (simp add: in_scope_def column_stored_record)

lemma gate_respected_snoc:
  assumes "gate_respected env data fb old new" "in_scope fb data row"
    and "\<forall>r \<in> set (old @ new). in_scope fb data r
           \<longrightarrow> similarity env r (col_embedding row) < similarity_search_score_threshold data"
  shows "gate_respected env data fb old (new @ [row])"
  unfolding gate_respected_def
proof (intro allI impI)
  fix k
  assume "k < length (new @ [row])"
  then consider "k < length new" | "k = length new"
    by force
  then show "in_scope fb data ((new @ [row]) ! k) \<and>
        (\<forall>r \<in> set (old @ take k (new @ [row])). in_scope fb data r
           \<longrightarrow> similarity env r (col_embedding ((new @ [row]) ! k))
                 < similarity_search_score_threshold data)"
  proof cases
    case 1
    then show ?thesis
      using assms(1) by (simp add: gate_respected_def nth_append)
  next
    case 2
    then show ?thesis
      using assms(2,3) by simp
  qed
qed

lemma accepted_row:
  assumes sel: "dbClient_query_select env (table_name data) (whereConditions (prepare_conditions fb data))
         (paramIndex (prepare_conditions fb data))
         (queryParams (prepare_conditions fb data) @ [PVector e]) w = (Inr rows, w1)"
    and lt: "similarityScore_of rows < similarity_search_score_threshold data"
  shows "\<forall>r \<in> set (tables w (table_name data)). in_scope fb data r
           \<longrightarrow> similarity env r e < similarity_search_score_threshold data"
proof (intro ballI impI)
  fix r
  assume r: "r \<in> set (tables w (table_name data))" "in_scope fb data r"
  let ?q = "prepare_conditions fb data"
  have "similarity_select (cosine_distance env) (tables w (table_name data)) (whereConditions ?q)
      (paramIndex ?q) (queryParams ?q @ [PVector e]) = Inr rows"
    using sel by (rule select_result)
  moreover have "param_at (queryParams ?q @ [PVector e]) (paramIndex ?q) = Some (PVector e)"
    by (simp add: paramIndex_prepare param_at_last)
  ultimately have "\<forall>r \<in> set (tables w (table_name data)).
      list_all (satisfies (queryParams ?q @ [PVector e]) r) (whereConditions ?q)
        \<longrightarrow> 1 - cosine_distance env (col_embedding r) e \<le> similarityScore_of rows"
    by (rule select_nearest)
  then have "similarity env r e \<le> similarityScore_of rows"
    using r by (simp add: in_scope_where similarity_def)
  then show "similarity env r e < similarity_search_score_threshold data"
    using lt by simp
qed

lemma process_message_visible:
  assumes pm: "process_message env data fb embeddings batch j l w = (res, w')"
    and v: "visible env data fb w0 l w"
  shows "stored env data fb w0 w' \<and> (\<forall>l1. res = Inr l1 \<longrightarrow> visible env data fb w0 l1 w')"
proof -
  obtain new where new: "tables w (table_name data) = tables w0 (table_name data) @ new"
    "gate_respected env data fb (tables w0 (table_name data)) new"
    "map accepted_message (nonDuplicateMessages l) = map row_key new"
    using v by (auto simp: visible_def)
  from pm show ?thesis
  proof (cases rule: process_message_cases)
    case missing
    then show ?thesis
      using new by (auto simp: stored_def)
  next
    case (select_failed e)
    then show ?thesis
      using new select_effect [OF select_failed(2)] by (auto simp: stored_def)
  next
    case (rejected rows)
    then show ?thesis
      using new select_effect [OF rejected(2)] by (auto simp: stored_def visible_def)
  next
    case (insert_failed rows w1 e)
    then show ?thesis
      using new select_effect [OF insert_failed(2)] insert_effect [OF insert_failed(4)]
      by (auto simp: stored_def)
  next
    case (accepted rows w1)
    let ?row = "stored_record data (batch ! j) (embeddings ! j) (similarityScore_of rows)"
    have t1: "tables w1 = tables w"
      using select_effect [OF accepted(2)] by simp
    have t': "tables w' (table_name data) = tables w0 (table_name data) @ (new @ [?row])"
      using insert_effect [OF accepted(4)] t1 new(1) by simp
    have "\<forall>r \<in> set (tables w (table_name data)). in_scope fb data r
           \<longrightarrow> similarity env r (embeddings ! j) < similarity_search_score_threshold data"
      using accepted(2,3) by (rule accepted_row)
    then have "\<forall>r \<in> set (tables w0 (table_name data) @ new). in_scope fb data r
           \<longrightarrow> similarity env r (col_embedding ?row) < similarity_search_score_threshold data"
      by (simp add: new(1) stored_record_def)
    with new(2) in_scope_stored_record
    have g: "gate_respected env data fb (tables w0 (table_name data)) (new @ [?row])"
      by (rule gate_respected_snoc)
    have "map accepted_message (nonDuplicateMessages l @ [batch ! j]) = map row_key (new @ [?row])"
      using new(3) by (simp add: accepted_message_def row_key_def stored_record_def)
    then show ?thesis
      using t' g accepted(5) unfolding stored_def visible_def by auto
  qed
qed

lemma ai_visible:
  assumes "env_AI_run env texts w = (res, w1)" "visible env data fb w0 l w"
  shows "visible env data fb w0 l w1 \<and> stored env data fb w0 w1"
  using assms ai_effect [OF assms(1)] by (auto simp: visible_def stored_def)

lemma chunk_loop_visible:
  assumes v: "visible env data fb w0 l w"
  shows "case chunk_loop env data fb um 0 l w of
           (Inl e, w') \<Rightarrow> stored env data fb w0 w'
         | (Inr l', w') \<Rightarrow> visible env data fb w0 l' w'"
proof (rule chunk_loop_rule [where P = "\<lambda>pre l w. visible env data fb w0 l w"
      and F = "\<lambda>w. stored env data fb w0 w"])
  show "visible env data fb w0 l w" by (rule v)
next
  fix pre l w texts e w1
  assume "visible env data fb w0 l w" "env_AI_run env texts w = (Inl e, w1)"
  then show "stored env data fb w0 w1"
    using ai_visible by blast
next
  fix pre l w texts vs w1
  assume "visible env data fb w0 l w" "env_AI_run env texts w = (Inr vs, w1)"
  then show "visible env data fb w0 l w1"
    using ai_visible by blast
next
  fix pre embeddings batch j l w e w1
  assume "visible env data fb w0 l w"
    "process_message env data fb embeddings batch j l w = (Inl e, w1)"
  then show "stored env data fb w0 w1"
    using process_message_visible by blast
next
  fix pre embeddings batch j l w l1 w1
  assume "visible env data fb w0 l w"
    "process_message env data fb embeddings batch j l w = (Inr l1, w1)"
  then show "visible env data fb w0 l1 w1"
    using process_message_visible by blast
qed

lemma connect_effect:
  assumes "dbClient_connect env w = (res, w1)"
  shows "tables w1 = tables w \<and> calls w1 = calls w @ [(DbConnect, \<not> isl res)]"
  using assms by (auto simp: dbClient_connect_def record_call_def split: if_splits)

lemma end_effect:
  "tables (dbClient_end env w) = tables w
   \<and> calls (dbClient_end env w) = calls w @ [(DbEnd, \<not> db_fails env (length (calls w)))]"
  by (simp add: dbClient_end_def record_call_def)

lemma processBatch_cases:
  assumes "processBatch env data fb w = (res, w')"
  obtains
    (connect_failed) e w1 where "dbClient_connect env w = (Inl e, w1)"
      "res = Inl e" "w' = dbClient_end env w1"
  | (aborted) u w1 e w2 where "dbClient_connect env w = (Inr u, w1)"
      "chunk_loop env data fb (uniqueMessages (messages data)) 0 (initial_locals data) w1 = (Inl e, w2)"
      "res = Inl e" "w' = dbClient_end env w2"
  | (completed) u w1 l w2 where "dbClient_connect env w = (Inr u, w1)"
      "chunk_loop env data fb (uniqueMessages (messages data)) 0 (initial_locals data) w1 = (Inr l, w2)"
      "res = Inr (success_response data fb l)" "w' = dbClient_end env w2"
  using assms unfolding processBatch_def
  by (auto split: prod.splits sum.splits)

lemma processBatch_visible:
  assumes "processBatch env data fb w = (res, w')"
  shows "\<exists>new. tables w' (table_name data) = tables w (table_name data) @ new
           \<and> gate_respected env data fb (tables w (table_name data)) new
           \<and> (\<forall>resp. res = Inr resp \<longrightarrow> r_non_duplicate_messages (resp_data resp) = map row_key new)"
  using assms
proof (cases rule: processBatch_cases)
  case (connect_failed e w1)
  have "tables w' (table_name data) = tables w (table_name data) @ []"
    using connect_failed(3) connect_effect [OF connect_failed(1)] end_effect [of env w1] by simp
  moreover have "gate_respected env data fb (tables w (table_name data)) []"
    by (simp add: gate_respected_def)
  moreover have "\<forall>resp. res = Inr resp
      \<longrightarrow> r_non_duplicate_messages (resp_data resp) = map row_key []"
    using connect_failed(2) by simp
  ultimately show ?thesis
    by (intro exI [of _ "[]"] conjI)
next
  case (aborted u w1 e w2)
  have "visible env data fb w (initial_locals data) w1"
    using connect_effect [OF aborted(1)]
    by (simp add: visible_def gate_respected_def initial_locals_def Let_def)
  then have "stored env data fb w w2"
    using chunk_loop_visible [of env data fb w "initial_locals data" w1 "uniqueMessages (messages data)"]
      aborted(2) by simp
  then obtain new where new: "tables w2 (table_name data) = tables w (table_name data) @ new"
    "gate_respected env data fb (tables w (table_name data)) new"
    by (auto simp: stored_def)
  have "tables w' (table_name data) = tables w (table_name data) @ new"
    using new(1) aborted(4) end_effect [of env w2] by simp
  moreover have "\<forall>resp. res = Inr resp
      \<longrightarrow> r_non_duplicate_messages (resp_data resp) = map row_key new"
    using aborted(3) by simp
  ultimately show ?thesis
    using new(2) by (intro exI [of _ new] conjI)
next
  case (completed u w1 l w2)
  have "visible env data fb w (initial_locals data) w1"
    using connect_effect [OF completed(1)]
    by (simp add: visible_def gate_respected_def initial_locals_def Let_def)
  then have "visible env data fb w l w2"
    using chunk_loop_visible [of env data fb w "initial_locals data" w1 "uniqueMessages (messages data)"]
      completed(2) by simp
  then obtain new where new: "tables w2 (table_name data) = tables w (table_name data) @ new"
    "gate_respected env data fb (tables w (table_name data)) new"
    "map accepted_message (nonDuplicateMessages l) = map row_key new"
    by (auto simp: visible_def)
  have "r_non_duplicate_messages (resp_data (success_response data fb l)) = map row_key new"
    using new(3) by (simp add: success_response_def Let_def)
  then have "\<forall>resp. res = Inr resp
      \<longrightarrow> r_non_duplicate_messages (resp_data resp) = map row_key new"
    using completed(3) by simp
  moreover have "tables w' (table_name data) = tables w (table_name data) @ new"
    using new(1) completed(4) end_effect [of env w2] by simp
  ultimately show ?thesis
    using new(2) by (intro exI [of _ new] conjI)
qed

text \<open>
  C1. Messages pass the gate one after the other, each query reading the table as the
  previous message left it. For every run of a batch, finished or aborted, the rows it
  appended to the table are such that each accepted record scored below the threshold
  against every in-scope record stored before it, the records accepted earlier in the same
  batch included; so of two messages of one batch whose similarity reaches the threshold,
  the later one is never accepted once the earlier one is. On success the appended rows are
  the rows of the accepted messages, in order.
\<close>

theorem sequential_visibility:
  assumes "processBatch env data fb w = (res, w')"
  shows "\<exists>new. tables w' (table_name data) = tables w (table_name data) @ new
     \<and> (\<forall>j < length new. \<forall>r \<in> set (tables w (table_name data) @ take j new).
           in_scope fb data r
             \<longrightarrow> similarity env r (col_embedding (new ! j)) < similarity_search_score_threshold data)
     \<and> (\<forall>i j. i < j \<and> j < length new
           \<longrightarrow> similarity env (new ! i) (col_embedding (new ! j)) < similarity_search_score_threshold data)
     \<and> (\<forall>resp. res = Inr resp \<longrightarrow> r_non_duplicate_messages (resp_data resp) = map row_key new)"
proof -
  from processBatch_visible [OF assms] obtain new where
    t: "tables w' (table_name data) = tables w (table_name data) @ new"
    and g: "gate_respected env data fb (tables w (table_name data)) new"
    and r: "\<forall>resp. res = Inr resp \<longrightarrow> r_non_duplicate_messages (resp_data resp) = map row_key new"
    by blast
  have a: "\<forall>j < length new. \<forall>r \<in> set (tables w (table_name data) @ take j new).
           in_scope fb data r
             \<longrightarrow> similarity env r (col_embedding (new ! j)) < similarity_search_score_threshold data"
    using g by (simp add: gate_respected_def)
  have b: "\<forall>i j. i < j \<and> j < length new
           \<longrightarrow> similarity env (new ! i) (col_embedding (new ! j)) < similarity_search_score_threshold data"
  proof (intro allI impI)
    fix i j
    assume ij: "i < j \<and> j < length new"
    then have "i < length (take j new)"
      by simp
    then have "take j new ! i \<in> set (take j new)"
      by (rule nth_mem)
    then have "new ! i \<in> set (take j new)"
      using ij by simp
    moreover have "in_scope fb data (new ! i)"
      using g ij by (simp add: gate_respected_def)
    ultimately show "similarity env (new ! i) (col_embedding (new ! j))
        < similarity_search_score_threshold data"
      using a ij by auto
  qed
  show ?thesis
    by (rule exI [of _ new]) (intro conjI t a b r)
qed

theorem sequential_visibility_witness:
  "processBatch example_env example_request [''topic'', ''subindustry''] example_world
     = (Inr example_response, example_final_world)
   \<and> similarity example_env (example_row ''m1'' ''A'' [1, 0])
        (col_embedding (example_row ''m3'' ''B'' [0, 1]))
       < similarity_search_score_threshold example_request
   \<and> r_non_duplicate_messages (resp_data example_response)
       = map row_key [example_row ''m1'' ''A'' [1, 0], example_row ''m3'' ''B'' [0, 1]]"
proof -
  let ?rows = "[example_row ''m1'' ''A'' [1, 0], example_row ''m3'' ''B'' [0, 1]]"
  from sequential_visibility [OF example_run] obtain new where
    t: "tables example_final_world (table_name example_request)
          = tables example_world (table_name example_request) @ new"
    and b: "\<forall>i j. i < j \<and> j < length new
           \<longrightarrow> similarity example_env (new ! i) (col_embedding (new ! j))
                 < similarity_search_score_threshold example_request"
    and r: "\<forall>resp. Inr example_response = Inr resp
           \<longrightarrow> r_non_duplicate_messages (resp_data resp) = map row_key new"
    by blast
  have new: "new = ?rows"
    using t by (simp add: example_final_world_def example_world_def example_request_def)
  have "(0::nat) < 1 \<and> 1 < length ?rows"
    by simp
  then have "similarity example_env (?rows ! 0) (col_embedding (?rows ! 1))
      < similarity_search_score_threshold example_request"
    using b unfolding new by blast
  then have "similarity example_env (example_row ''m1'' ''A'' [1, 0])
        (col_embedding (example_row ''m3'' ''B'' [0, 1]))
       < similarity_search_score_threshold example_request"
    by simp
  moreover have "r_non_duplicate_messages (resp_data example_response) = map row_key ?rows"
    using r unfolding new by simp
  ultimately show ?thesis
    using example_run by (intro conjI)
qed

subsection \<open>Failures\<close>

lemma inserted_rows_append: "inserted_rows (xs @ ys) = inserted_rows xs @ inserted_rows ys"
  by (induction xs rule: inserted_rows.induct) simp_all

lemma all_succeeded_append:
  "all_succeeded (xs @ ys) \<longleftrightarrow> all_succeeded xs \<and> all_succeeded ys"
  by (auto simp: all_succeeded_def)

lemma journal_call:
  assumes "journal data w0 ext w" "calls w1 = calls w @ [(c, ok)]"
    and "tables w1 = (if ok then (case c of DbInsert r \<Rightarrow> (tables w)(table_name data := tables w (table_name data) @ [r])
                                  | _ \<Rightarrow> tables w) else tables w)"
  shows "journal data w0 (ext @ [(c, ok)]) w1"
  using assms
  by (cases c; cases ok) (auto simp: journal_def inserted_rows_append)

lemma answered_short_append:
  "answered_short env n (xs @ ys)
     \<longleftrightarrow> answered_short env n xs \<or> answered_short env (n + length xs) ys"
  by (induction env n xs rule: answered_short.induct) simp_all

lemma answered_short_store_calls:
  "store_calls_only cs \<Longrightarrow> \<not> answered_short env n cs"
  by (induction env n cs rule: answered_short.induct) (auto simp: store_calls_only_def)

lemma stops_short_settled: "\<not> answered_short env n cs \<Longrightarrow> stops_short env n cs"
  by (induction env n cs rule: stops_short.induct) (auto split: sum.splits)

lemma stops_short_append:
  "\<not> answered_short env n xs
     \<Longrightarrow> stops_short env n (xs @ ys) \<longleftrightarrow> stops_short env (n + length xs) ys"
  by (induction env n xs rule: answered_short.induct) (auto split: sum.splits)

lemma stops_short_chunk:
  "AI_run env n texts = Inr vs \<Longrightarrow> store_calls_only ext2 \<Longrightarrow> selects ext2 \<le> length vs
     \<Longrightarrow> stops_short env n ((AiRun texts, True) # ext2)"
  by (simp add: stops_short_settled answered_short_store_calls)

lemma all_succeeded_butlast: "all_succeeded cs \<Longrightarrow> all_succeeded (butlast cs)"
  by (auto simp: all_succeeded_def dest: in_set_butlastD)

lemma answered_short_chunk:
  "AI_run env n texts = Inr vs \<Longrightarrow> \<not> length vs < length texts \<Longrightarrow> store_calls_only ext2
     \<Longrightarrow> \<not> answered_short env n ((AiRun texts, True) # ext2)"
  by (simp add: answered_short_store_calls)

lemma all_succeeded_chunk:
  "all_succeeded ext0 \<Longrightarrow> all_succeeded ext2
     \<Longrightarrow> all_succeeded (ext0 @ [(AiRun texts, True)] @ ext2)"
  by (auto simp: all_succeeded_def)

lemma in_chunk_call:
  assumes "in_chunk data w0 ext0 texts vs k w" "calls w1 = calls w @ [(c, ok)]"
    and "tables w1 = (if ok then (case c of DbInsert r \<Rightarrow> (tables w)(table_name data := tables w (table_name data) @ [r])
                                  | _ \<Rightarrow> tables w) else tables w)"
    and "is_store_call c"
  obtains ext2 where "journal data w0 (ext0 @ [(AiRun texts, True)] @ ext2 @ [(c, ok)]) w1"
    "all_succeeded ext2" "store_calls_only (ext2 @ [(c, ok)])"
    "selects (ext2 @ [(c, ok)]) = (if c = DbSelect then Suc k else k)"
proof -
  from assms(1) obtain ext2 where e: "journal data w0 (ext0 @ [(AiRun texts, True)] @ ext2) w"
    "all_succeeded ext2" "store_calls_only ext2" "selects ext2 = k"
    by (auto simp: in_chunk_def)
  have "journal data w0 ((ext0 @ [(AiRun texts, True)] @ ext2) @ [(c, ok)]) w1"
    using e(1) assms(2) by (rule journal_call) (simp add: assms(3))
  then have j: "journal data w0 (ext0 @ [(AiRun texts, True)] @ ext2 @ [(c, ok)]) w1"
    by simp
  have s: "store_calls_only (ext2 @ [(c, ok)])"
    using e(3) assms(4) by (simp add: store_calls_only_def)
  have n: "selects (ext2 @ [(c, ok)]) = (if c = DbSelect then Suc k else k)"
    using e(4) by (simp add: selects_def)
  show ?thesis
    using j e(2) s n by (rule that)
qed

lemma in_chunk_ok:
  assumes "in_chunk data w0 ext0 texts vs k w" "calls w1 = calls w @ [(c, True)]"
    and "tables w1 = (case c of DbInsert r \<Rightarrow> (tables w)(table_name data := tables w (table_name data) @ [r])
                                  | _ \<Rightarrow> tables w)"
    and "is_store_call c" and "(if c = DbSelect then Suc k else k) \<le> length vs"
  shows "in_chunk data w0 ext0 texts vs (if c = DbSelect then Suc k else k) w1"
proof -
  from assms(1,2) _ assms(4) obtain ext2 where
    e: "journal data w0 (ext0 @ [(AiRun texts, True)] @ ext2 @ [(c, True)]) w1"
    "all_succeeded ext2" "store_calls_only (ext2 @ [(c, True)])"
    "selects (ext2 @ [(c, True)]) = (if c = DbSelect then Suc k else k)"
    by (rule in_chunk_call) (simp add: assms(3))
  have "all_succeeded (ext2 @ [(c, True)])"
    using e(2) by (simp add: all_succeeded_def)
  with e(1) show ?thesis
    using e(3,4) assms(5) unfolding in_chunk_def by (intro exI [of _ "ext2 @ [(c, True)]"] conjI)
qed

lemma in_chunk_failed:
  assumes "in_chunk data w0 ext0 texts vs k w" "calls w1 = calls w @ [(c, False)]"
    and "tables w1 = tables w" and "is_store_call c"
    and "(if c = DbSelect then Suc k else k) \<le> length vs"
    and "all_succeeded ext0" and "\<not> answered_short env (length (calls w0)) ext0"
    and "AI_run env (length (calls w0) + length ext0) texts = Inr vs"
  shows "broken env data w0 w1"
proof -
  from assms(1,2) _ assms(4) obtain ext2 where
    e: "journal data w0 (ext0 @ [(AiRun texts, True)] @ ext2 @ [(c, False)]) w1"
    "all_succeeded ext2" "store_calls_only (ext2 @ [(c, False)])"
    "selects (ext2 @ [(c, False)]) = (if c = DbSelect then Suc k else k)"
    by (rule in_chunk_call) (simp add: assms(3))
  let ?ext = "ext0 @ [(AiRun texts, True)] @ ext2 @ [(c, False)]"
  have "butlast ?ext = ext0 @ [(AiRun texts, True)] @ ext2"
    by (simp add: butlast_append)
  then have "all_succeeded (butlast ?ext)"
    using assms(6) e(2) all_succeeded_chunk by simp
  moreover have "\<not> all_succeeded ?ext"
    by (simp add: all_succeeded_def)
  moreover have "stops_short env (length (calls w0) + length ext0)
      ((AiRun texts, True) # ext2 @ [(c, False)])"
    using assms(8) e(3) by (rule stops_short_chunk) (simp only: e(4) assms(5))
  then have "stops_short env (length (calls w0)) ?ext"
    using assms(7) by (simp add: stops_short_append)
  ultimately show ?thesis
    using e(1) unfolding broken_def by blast
qed

lemma process_message_in_chunk:
  assumes pm: "process_message env data fb vs batch j l w = (res, w')"
    and c: "in_chunk data w0 ext0 texts vs j w"
    and j: "j < length batch"
    and ext0: "all_succeeded ext0" "\<not> answered_short env (length (calls w0)) ext0"
    and ai: "AI_run env (length (calls w0) + length ext0) texts = Inr vs"
    and len: "length texts = length batch"
  shows "case res of Inl e \<Rightarrow> broken env data w0 w'
         | Inr l1 \<Rightarrow> in_chunk data w0 ext0 texts vs (Suc j) w'"
  using pm
proof (cases rule: process_message_cases)
  case missing
  from c obtain ext2 where e: "journal data w0 (ext0 @ [(AiRun texts, True)] @ ext2) w"
    "all_succeeded ext2" "store_calls_only ext2" "selects ext2 = j" "j \<le> length vs"
    by (auto simp: in_chunk_def)
  let ?ext = "ext0 @ [(AiRun texts, True)] @ ext2"
  have "length vs < length texts"
    using missing(1) j len by simp
  then have "answered_short env (length (calls w0) + length ext0) ((AiRun texts, True) # ext2)"
    using ai by simp
  then have "answered_short env (length (calls w0)) ?ext"
    by (simp add: answered_short_append)
  moreover have "all_succeeded ?ext"
    using ext0(1) e(2) by (rule all_succeeded_chunk)
  then have "all_succeeded (butlast ?ext)"
    by (rule all_succeeded_butlast)
  moreover have "stops_short env (length (calls w0) + length ext0) ((AiRun texts, True) # ext2)"
    using ai e(3) by (rule stops_short_chunk) (simp only: e(4,5))
  then have "stops_short env (length (calls w0)) ?ext"
    using ext0(2) by (simp add: stops_short_append)
  ultimately have "broken env data w0 w"
    using e(1) unfolding broken_def by blast
  then show ?thesis
    using missing by simp
next
  case (select_failed e)
  have "broken env data w0 w'"
    using c select_effect [OF select_failed(2)] ext0 ai select_failed(1)
    by (intro in_chunk_failed [of data w0 ext0 texts vs j w w' DbSelect]) simp_all
  then show ?thesis
    using select_failed(3) by simp
next
  case (rejected rows)
  have "in_chunk data w0 ext0 texts vs (if DbSelect = DbSelect then Suc j else j) w'"
    using c select_effect [OF rejected(2)] rejected(1)
    by (intro in_chunk_ok [of data w0 ext0 texts vs j w w' DbSelect]) simp_all
  then show ?thesis
    using rejected(4) by simp
next
  case (insert_failed rows w1 e)
  let ?ins = "DbInsert (stored_record data (batch ! j) (vs ! j) (similarityScore_of rows))"
  have "in_chunk data w0 ext0 texts vs (if DbSelect = DbSelect then Suc j else j) w1"
    using c select_effect [OF insert_failed(2)] insert_failed(1)
    by (intro in_chunk_ok [of data w0 ext0 texts vs j w w1 DbSelect]) simp_all
  then have "in_chunk data w0 ext0 texts vs (Suc j) w1"
    by simp
  then have "broken env data w0 w'"
    using insert_effect [OF insert_failed(4)] ext0 ai insert_failed(1)
    by (intro in_chunk_failed [of data w0 ext0 texts vs "Suc j" w1 w' ?ins]) simp_all
  then show ?thesis
    using insert_failed(5) by simp
next
  case (accepted rows w1)
  let ?ins = "DbInsert (stored_record data (batch ! j) (vs ! j) (similarityScore_of rows))"
  have "in_chunk data w0 ext0 texts vs (if DbSelect = DbSelect then Suc j else j) w1"
    using c select_effect [OF accepted(2)] accepted(1)
    by (intro in_chunk_ok [of data w0 ext0 texts vs j w w1 DbSelect]) simp_all
  then have "in_chunk data w0 ext0 texts vs (Suc j) w1"
    by simp
  then have "in_chunk data w0 ext0 texts vs (if ?ins = DbSelect then Suc (Suc j) else Suc j) w'"
    using insert_effect [OF accepted(4)] accepted(1)
    by (intro in_chunk_ok [of data w0 ext0 texts vs "Suc j" w1 w' ?ins]) simp_all
  then show ?thesis
    using accepted(5) by simp
qed

lemma process_chunk_settled:
  assumes st: "settled env data w0 w"
    and pc: "process_chunk env data fb um i l w = (r, w')"
  shows "case r of Inl e \<Rightarrow> broken env data w0 w' | Inr l1 \<Rightarrow> settled env data w0 w'"
proof -
  let ?batch = "take embeddingBatchSize (drop i um)"
  let ?texts = "map content ?batch"
  from st obtain ext0 where e0: "journal data w0 ext0 w" "all_succeeded ext0"
    "\<not> answered_short env (length (calls w0)) ext0"
    by (auto simp: settled_def)
  have pos: "length (calls w) = length (calls w0) + length ext0"
    using e0(1) by (simp add: journal_def)
  obtain a w1 where ai: "env_AI_run env ?texts w = (a, w1)"
    by (cases "env_AI_run env ?texts w")
  have eff: "tables w1 = tables w" "calls w1 = calls w @ [(AiRun ?texts, \<not> isl a)]"
    using ai_effect [OF ai] by simp_all
  have j1: "journal data w0 (ext0 @ [(AiRun ?texts, \<not> isl a)]) w1"
    using e0(1) eff(2) by (rule journal_call) (simp add: eff(1))
  show ?thesis
  proof (cases a)
    case (Inl e)
    have "butlast (ext0 @ [(AiRun ?texts, False)]) = ext0"
      by simp
    then have "all_succeeded (butlast (ext0 @ [(AiRun ?texts, False)]))"
      using e0(2) by simp
    moreover have "\<not> all_succeeded (ext0 @ [(AiRun ?texts, False)])"
      by (simp add: all_succeeded_def)
    moreover have "stops_short env (length (calls w0)) (ext0 @ [(AiRun ?texts, False)])"
      using e0(3) by (simp add: stops_short_append)
    ultimately have "broken env data w0 w1"
      using j1 Inl unfolding broken_def by auto
    moreover have "r = Inl e" "w' = w1"
      using pc ai Inl by (auto simp: process_chunk_def)
    ultimately show ?thesis
      by simp
  next
    case (Inr vs)
    have run: "AI_run env (length (calls w0) + length ext0) ?texts = Inr vs"
      using ai Inr pos by (cases "AI_run env (length (calls w)) ?texts")
        (simp_all add: env_AI_run_def)
    have ml: "message_loop env data fb vs ?batch 0 l w1 = (r, w')"
      using pc ai Inr by (simp add: process_chunk_def)
    have init: "in_chunk data w0 ext0 ?texts vs (length ([] @ take 0 ?batch)) w1"
      using j1 Inr by (auto simp: in_chunk_def all_succeeded_def store_calls_only_def selects_def
          intro!: exI [of _ "[]"])
    have "case message_loop env data fb vs ?batch 0 l w1 of
            (Inl e, w') \<Rightarrow> broken env data w0 w'
          | (Inr l', w') \<Rightarrow> in_chunk data w0 ext0 ?texts vs (length ([] @ ?batch)) w'"
      using init
    proof (rule message_loop_rule [where
          P = "\<lambda>done l w. in_chunk data w0 ext0 ?texts vs (length done) w"
          and F = "\<lambda>w. broken env data w0 w"])
      fix j l w e w1
      assume "j < length ?batch" "in_chunk data w0 ext0 ?texts vs (length ([] @ take j ?batch)) w"
        "process_message env data fb vs ?batch j l w = (Inl e, w1)"
      then show "broken env data w0 w1"
        using process_message_in_chunk [of env data fb vs ?batch j l w "Inl e" w1 w0 ext0 ?texts]
          e0(2,3) run by simp
    next
      fix j l w l1 w1
      assume "j < length ?batch" "in_chunk data w0 ext0 ?texts vs (length ([] @ take j ?batch)) w"
        "process_message env data fb vs ?batch j l w = (Inr l1, w1)"
      then show "in_chunk data w0 ext0 ?texts vs (length ([] @ take j ?batch @ [?batch ! j])) w1"
        using process_message_in_chunk [of env data fb vs ?batch j l w "Inr l1" w1 w0 ext0 ?texts]
          e0(2,3) run by simp
    qed
    then have res: "case r of Inl e \<Rightarrow> broken env data w0 w'
        | Inr l' \<Rightarrow> in_chunk data w0 ext0 ?texts vs (length ?batch) w'"
      using ml by (cases r) simp_all
    show ?thesis
    proof (cases r)
      case (Inl e)
      then show ?thesis using res by simp
    next
      case (Inr l')
      then have "in_chunk data w0 ext0 ?texts vs (length ?batch) w'"
        using res by simp
      then obtain ext2 where e2: "journal data w0 (ext0 @ [(AiRun ?texts, True)] @ ext2) w'"
        "all_succeeded ext2" "store_calls_only ext2" "length ?batch \<le> length vs"
        unfolding in_chunk_def by blast
      let ?ext = "ext0 @ [(AiRun ?texts, True)] @ ext2"
      have "all_succeeded ?ext"
        using e0(2) e2(2) by (rule all_succeeded_chunk)
      moreover have "\<not> length vs < length ?texts"
        using e2(4) by (simp only: length_map not_less)
      with run have "\<not> answered_short env (length (calls w0) + length ext0)
          ((AiRun ?texts, True) # ext2)"
        using e2(3) by (rule answered_short_chunk)
      then have "\<not> answered_short env (length (calls w0)) ?ext"
        using e0(3) by (simp add: answered_short_append)
      ultimately have "settled env data w0 w'"
        using e2(1) unfolding settled_def by blast
      then show ?thesis
        using Inr by simp
    qed
  qed
qed

lemma chunk_loop_steps:
  assumes inv: "P w"
    and step: "\<And>i l w r w1. P w \<Longrightarrow> process_chunk env data fb um i l w = (r, w1)
        \<Longrightarrow> (case r of Inl e \<Rightarrow> F w1 | Inr l1 \<Rightarrow> P w1)"
  shows "case chunk_loop env data fb um i l w of (Inl e, w') \<Rightarrow> F w' | (Inr l', w') \<Rightarrow> P w'"
  using inv
proof (induction "length um - i" arbitrary: i l w rule: less_induct)
  case less
  show ?case
  proof (cases "i < length um")
    case False
    then show ?thesis
      using less.prems by (subst chunk_loop.simps) simp
  next
    case True
    obtain r w1 where r: "process_chunk env data fb um i l w = (r, w1)"
      by (cases "process_chunk env data fb um i l w")
    note s = step [OF less.prems r]
    show ?thesis
    proof (cases r)
      case (Inl e)
      then show ?thesis
        using s r True by (subst chunk_loop.simps) simp
    next
      case (Inr l1)
      have "length um - (i + embeddingBatchSize) < length um - i"
        using True by (simp add: embeddingBatchSize_def)
      moreover have "P w1"
        using s Inr by simp
      ultimately have "case chunk_loop env data fb um (i + embeddingBatchSize) l1 w1 of
           (Inl e, w') \<Rightarrow> F w' | (Inr l', w') \<Rightarrow> P w'"
        by (rule less.hyps)
      then show ?thesis
        using r Inr True by (subst chunk_loop.simps) simp
    qed
  qed
qed

lemma chunk_loop_settled:
  assumes "settled env data w0 w"
  shows "case chunk_loop env data fb um i l w of
           (Inl e, w') \<Rightarrow> broken env data w0 w' | (Inr l', w') \<Rightarrow> settled env data w0 w'"
  using assms
proof (rule chunk_loop_steps [where P = "\<lambda>w. settled env data w0 w"
      and F = "\<lambda>w. broken env data w0 w"])
  fix i l w r w1
  assume "settled env data w0 w" "process_chunk env data fb um i l w = (r, w1)"
  then show "case r of Inl e \<Rightarrow> broken env data w0 w1 | Inr l1 \<Rightarrow> settled env data w0 w1"
    by (rule process_chunk_settled)
qed

lemma journal_end:
  assumes "journal data w0 ext w"
  shows "\<exists>b. calls (dbClient_end env w) = calls w0 @ ext @ [(DbEnd, b)]
           \<and> tables (dbClient_end env w)
               = (tables w0)(table_name data := tables w0 (table_name data) @ inserted_rows ext)"
  using assms end_effect [of env w] by (simp add: journal_def)

text \<open>
  C9. A batch makes its calls \<open>ext\<close> and then closes the connection. Every call but the
  last one succeeded, so a failing call of the embedding provider or of the store (connect,
  SELECT or INSERT) is the last call of the batch: nothing is retried and no INSERT follows
  it. The batch returns no response (it throws) exactly when a call failed or the provider
  answered a call with fewer vectors than texts; in the latter case the messages that
  received a vector are the only ones looked up after that call, and no further provider
  call is made. In every case the table holds its former rows followed by the rows of the
  INSERT calls that succeeded, all of them made before the failure.
\<close>

theorem fail_fast:
  assumes "processBatch env data fb w = (res, w')"
  shows "\<exists>ext b. calls w' = calls w @ ext @ [(DbEnd, b)]
     \<and> tables w' = (tables w)(table_name data := tables w (table_name data) @ inserted_rows ext)
     \<and> all_succeeded (butlast ext)
     \<and> (isl res \<longleftrightarrow> \<not> all_succeeded ext \<or> answered_short env (length (calls w)) ext)
     \<and> stops_short env (length (calls w)) ext"
  using assms
proof (cases rule: processBatch_cases)
  case (connect_failed e w1)
  have "journal data w [(DbConnect, False)] w1"
    using connect_effect [OF connect_failed(1)] by (simp add: journal_def)
  then obtain b where "calls w' = calls w @ [(DbConnect, False)] @ [(DbEnd, b)]"
    "tables w' = (tables w)(table_name data := tables w (table_name data)
        @ inserted_rows [(DbConnect, False)])"
    using journal_end [of data w "[(DbConnect, False)]" w1 env] connect_failed(3) by auto
  moreover have "all_succeeded (butlast [(DbConnect, False)])"
    by (simp add: all_succeeded_def)
  moreover have "isl res \<longleftrightarrow> \<not> all_succeeded [(DbConnect, False)]
      \<or> answered_short env (length (calls w)) [(DbConnect, False)]"
    using connect_failed(2) by (simp add: all_succeeded_def)
  moreover have "stops_short env (length (calls w)) [(DbConnect, False)]"
    by simp
  ultimately show ?thesis
    by (intro exI [of _ "[(DbConnect, False)]"] exI [of _ b] conjI)
next
  case (aborted u w1 e w2)
  have "settled env data w w1"
    using connect_effect [OF aborted(1)]
    by (auto simp: settled_def journal_def all_succeeded_def intro!: exI [of _ "[(DbConnect, True)]"])
  then have "broken env data w w2"
    using chunk_loop_settled [of env data w w1 fb "uniqueMessages (messages data)" 0
        "initial_locals data"] aborted(2) by simp
  then obtain ext where ext: "journal data w ext w2" "all_succeeded (butlast ext)"
    "\<not> all_succeeded ext \<or> answered_short env (length (calls w)) ext"
    "stops_short env (length (calls w)) ext"
    unfolding broken_def by blast
  obtain b where "calls w' = calls w @ ext @ [(DbEnd, b)]"
    "tables w' = (tables w)(table_name data := tables w (table_name data) @ inserted_rows ext)"
    using journal_end [OF ext(1), of env] aborted(4) by auto
  moreover have "isl res \<longleftrightarrow> \<not> all_succeeded ext \<or> answered_short env (length (calls w)) ext"
    using aborted(3) ext(3) by simp
  ultimately show ?thesis
    using ext(2,4) by (intro exI [of _ ext] exI [of _ b] conjI)
next
  case (completed u w1 l w2)
  have "settled env data w w1"
    using connect_effect [OF completed(1)]
    by (auto simp: settled_def journal_def all_succeeded_def intro!: exI [of _ "[(DbConnect, True)]"])
  then have "settled env data w w2"
    using chunk_loop_settled [of env data w w1 fb "uniqueMessages (messages data)" 0
        "initial_locals data"] completed(2) by simp
  then obtain ext where ext: "journal data w ext w2" "all_succeeded ext"
    "\<not> answered_short env (length (calls w)) ext"
    by (auto simp: settled_def)
  obtain b where "calls w' = calls w @ ext @ [(DbEnd, b)]"
    "tables w' = (tables w)(table_name data := tables w (table_name data) @ inserted_rows ext)"
    using journal_end [OF ext(1), of env] completed(4) by auto
  moreover have "all_succeeded (butlast ext)"
    using ext(2) by (rule all_succeeded_butlast)
  moreover have "isl res \<longleftrightarrow> \<not> all_succeeded ext \<or> answered_short env (length (calls w)) ext"
    using completed(3) ext(2,3) by simp
  moreover have "stops_short env (length (calls w)) ext"
    using ext(3) by (rule stops_short_settled)
  ultimately show ?thesis
    by (intro exI [of _ ext] exI [of _ b] conjI)
qed


theorem fail_fast_witness:
  "processBatch example_failing_env example_request [''topic'', ''subindustry''] example_world
     = (Inl DatabaseError, example_failed_world)
   \<and> \<not> all_succeeded example_failed_calls
   \<and> all_succeeded (butlast example_failed_calls)
   \<and> tables example_failed_world
       = (tables example_world)(''messages'' := tables example_world ''messages''
            @ inserted_rows example_failed_calls)
   \<and> inserted_rows example_failed_calls = [example_row ''m1'' ''A'' [1, 0]]
   \<and> processBatch example_short_env example_request [''topic'', ''subindustry''] example_world
     = (Inl TypeError, example_short_world)
   \<and> all_succeeded example_short_calls
   \<and> answered_short example_short_env 0 example_short_calls
   \<and> stops_short example_short_env 0 example_short_calls
   \<and> tables example_short_world
       = (tables example_world)(''messages'' := tables example_world ''messages''
            @ inserted_rows example_short_calls)
   \<and> inserted_rows example_short_calls = [example_row ''m1'' ''A'' [1, 0]]"
proof -
  from fail_fast [OF example_failing_run] obtain ext b where
    c: "calls example_failed_world = calls example_world @ ext @ [(DbEnd, b)]"
    and t: "tables example_failed_world
       = (tables example_world)(table_name example_request :=
            tables example_world (table_name example_request) @ inserted_rows ext)"
    and s: "all_succeeded (butlast ext)"
    by blast
  have ext: "ext = example_failed_calls"
    using c by (simp add: example_failed_world_def example_world_def)
  from fail_fast [OF example_short_run] obtain ext' b' where
    c': "calls example_short_world = calls example_world @ ext' @ [(DbEnd, b')]"
    and t': "tables example_short_world
       = (tables example_world)(table_name example_request :=
            tables example_world (table_name example_request) @ inserted_rows ext')"
    and i': "isl (Inl TypeError :: error + BatchResponse) \<longleftrightarrow> \<not> all_succeeded ext'
       \<or> answered_short example_short_env (length (calls example_world)) ext'"
    and h': "stops_short example_short_env (length (calls example_world)) ext'"
    by blast
  have ext': "ext' = example_short_calls"
    using c' by (simp add: example_short_world_def example_world_def)
  have n: "length (calls example_world) = 0"
    by (simp add: example_world_def)
  have a': "all_succeeded example_short_calls"
    by (simp add: all_succeeded_def example_short_calls_def)
  have "\<not> all_succeeded example_failed_calls"
    by (simp add: all_succeeded_def example_failed_calls_def)
  moreover have "inserted_rows example_failed_calls = [example_row ''m1'' ''A'' [1, 0]]"
    by (simp add: example_failed_calls_def)
  moreover have "inserted_rows example_short_calls = [example_row ''m1'' ''A'' [1, 0]]"
    by (simp add: example_short_calls_def)
  moreover have "table_name example_request = ''messages''"
    by (simp add: example_request_def)
  moreover have "answered_short example_short_env 0 example_short_calls"
    using i' a' unfolding ext' n by simp
  moreover have "stops_short example_short_env 0 example_short_calls"
    using h' unfolding ext' n by simp
  ultimately show ?thesis
    using example_failing_run example_short_run s t t' a' unfolding ext ext' by simp
qed

text \<open>The handler turns an aborted batch into the generic 500 response (lines 134-143).\<close>

lemma fetch_aborted:
  assumes "authorized env request" "request_method request = ''POST''" "json request = Some data"
    and "table_name data \<noteq> []" "job_id data \<noteq> []" "topic data \<noteq> []" "industry data \<noteq> []"
    and "processBatch env data (resolved_filter_by data) w = (Inl e, w')"
  shows "fetch env request w = (error_response 500 ''Internal server error'', w')"
  using assms by (simp add: fetch_def)

subsection \<open>The gate, the empty neighbourhood, and the resolved filter\<close>

lemma process_message_after_select:
  assumes emb: "j < length embeddings"
    and sel: "dbClient_query_select env (table_name data) (whereConditions (prepare_conditions fb data))
         (paramIndex (prepare_conditions fb data))
         (queryParams (prepare_conditions fb data) @ [PVector (embeddings ! j)]) w = (Inr rows, w1)"
  shows "process_message env data fb embeddings batch j l w =
     (if similarityScore_of rows < similarity_search_score_threshold data then
        (case dbClient_query_insert env (table_name data)
                (stored_record data (batch ! j) (embeddings ! j) (similarityScore_of rows)) w1 of
           (Inl e, w2) \<Rightarrow> (Inl e, w2)
         | (Inr u, w2) \<Rightarrow>
             (Inr (l\<lparr>nonDuplicateMessages := nonDuplicateMessages l @ [batch ! j]\<rparr>), w2))
      else (Inr (l\<lparr>stats := (stats l)\<lparr>dropped := dropped (stats l) + 1\<rparr>\<rparr>), w1))"
  using emb sel by (simp add: process_message_def Let_def)

lemma insert_succeeds:
  assumes "\<not> db_fails env (length (calls w))"
  shows "dbClient_query_insert env t row w
     = (Inr (), record_call (DbInsert row) True (w\<lparr>tables := (tables w)(t := tables w t @ [row])\<rparr>))"
  using assms by (simp add: dbClient_query_insert_def)

lemma gate_after_select:
  assumes emb: "j < length embeddings"
    and sel: "dbClient_query_select env (table_name data) (whereConditions (prepare_conditions fb data))
         (paramIndex (prepare_conditions fb data))
         (queryParams (prepare_conditions fb data) @ [PVector (embeddings ! j)]) w = (Inr rows, w1)"
    and pm: "process_message env data fb embeddings batch j l w = (res, w')"
  shows "(similarityScore_of rows < similarity_search_score_threshold data \<longrightarrow>
          calls w' = calls w1
            @ [(DbInsert (stored_record data (batch ! j) (embeddings ! j) (similarityScore_of rows)),
                \<not> db_fails env (length (calls w1)))]
          \<and> (\<not> db_fails env (length (calls w1)) \<longrightarrow>
               res = Inr (l\<lparr>nonDuplicateMessages := nonDuplicateMessages l @ [batch ! j]\<rparr>)
               \<and> tables w' (table_name data) = tables w (table_name data)
                    @ [stored_record data (batch ! j) (embeddings ! j) (similarityScore_of rows)]))
       \<and> (similarity_search_score_threshold data \<le> similarityScore_of rows \<longrightarrow>
          res = Inr (l\<lparr>stats := (stats l)\<lparr>dropped := dropped (stats l) + 1\<rparr>\<rparr>)
          \<and> w' = w1)"
proof (intro conjI impI)
  let ?row = "stored_record data (batch ! j) (embeddings ! j) (similarityScore_of rows)"
  have t: "tables w1 = tables w"
    using select_effect [OF sel] by simp
  {
    assume a: "similarityScore_of rows < similarity_search_score_threshold data"
    obtain r2 w2 where ins: "dbClient_query_insert env (table_name data) ?row w1 = (r2, w2)"
      by (cases "dbClient_query_insert env (table_name data) ?row w1")
    have w: "w' = w2"
      using pm a ins by (cases r2) (simp_all add: process_message_after_select [OF emb sel])
    have "isl r2 \<longleftrightarrow> db_fails env (length (calls w1))"
      using ins by (auto simp: dbClient_query_insert_def split: if_splits)
    then show "calls w' = calls w1 @ [(DbInsert ?row, \<not> db_fails env (length (calls w1)))]"
      using insert_effect [OF ins] w by simp
    {
      assume ok: "\<not> db_fails env (length (calls w1))"
      have "(res, w') = (Inr (l\<lparr>nonDuplicateMessages := nonDuplicateMessages l @ [batch ! j]\<rparr>),
          record_call (DbInsert ?row) True
            (w1\<lparr>tables := (tables w1)(table_name data := tables w1 (table_name data) @ [?row])\<rparr>))"
        using pm a ok by (simp add: process_message_after_select [OF emb sel] insert_succeeds)
      then show "res = Inr (l\<lparr>nonDuplicateMessages := nonDuplicateMessages l @ [batch ! j]\<rparr>)"
        and "tables w' (table_name data) = tables w (table_name data) @ [?row]"
        using t by (simp_all add: record_call_def)
    }
  }
  {
    assume "similarity_search_score_threshold data \<le> similarityScore_of rows"
    then have a: "\<not> similarityScore_of rows < similarity_search_score_threshold data"
      by simp
    have "(res, w') = (Inr (l\<lparr>stats := (stats l)\<lparr>dropped := dropped (stats l) + 1\<rparr>\<rparr>), w1)"
      using pm a by (simp add: process_message_after_select [OF emb sel])
    then show "res = Inr (l\<lparr>stats := (stats l)\<lparr>dropped := dropped (stats l) + 1\<rparr>\<rparr>)"
      and "w' = w1"
      by simp_all
  }
qed

lemma select_nearest_score:
  assumes ok: "\<not> db_fails env (length (calls w))"
  shows "\<exists>rows. dbClient_query_select env (table_name data)
             (whereConditions (prepare_conditions fb data))
             (paramIndex (prepare_conditions fb data))
             (queryParams (prepare_conditions fb data) @ [PVector e]) w
           = (Inr rows, record_call DbSelect True w)
         \<and> similarityScore_of rows = nearest_score env fb data (tables w (table_name data)) e"
proof -
  let ?q = "prepare_conditions fb data"
  let ?tbl = "tables w (table_name data)"
  let ?f = "\<lambda>r. cosine_distance env (col_embedding r) e"
  let ?xs = "filter (in_scope fb data) ?tbl"
  let ?ys = "sort_key ?f ?xs"
  let ?rows = "map (\<lambda>r. (col_content r, 1 - ?f r)) (take 1 ?ys)"
  have p: "param_at (queryParams ?q @ [PVector e]) (paramIndex ?q) = Some (PVector e)"
    by (simp add: paramIndex_prepare param_at_last)
  have f: "filter (\<lambda>r. list_all (satisfies (queryParams ?q @ [PVector e]) r) (whereConditions ?q)) ?tbl
      = ?xs"
    by (simp add: in_scope_where)
  have sel: "similarity_select (cosine_distance env) ?tbl (whereConditions ?q) (paramIndex ?q)
      (queryParams ?q @ [PVector e]) = Inr ?rows"
    by (simp add: similarity_select_def p f)
  have call: "dbClient_query_select env (table_name data) (whereConditions ?q) (paramIndex ?q)
      (queryParams ?q @ [PVector e]) w = (Inr ?rows, record_call DbSelect True w)"
    using ok by (simp add: dbClient_query_select_def sel)
  have score: "similarityScore_of ?rows = nearest_score env fb data ?tbl e"
  proof (cases "?xs = []")
    case True
    then show ?thesis
      by (simp add: similarityScore_of_def nearest_score_def)
  next
    case False
    then have "?ys \<noteq> []"
      by (metis length_0_conv length_sort)
    then obtain y ys' where ys: "?ys = y # ys'"
      by (cases ?ys) auto
    have y: "y \<in> set ?xs"
      by (metis list.set_intros(1) set_sort ys)
    have "sorted (map ?f ?ys)"
      by (rule sorted_sort_key)
    then have "\<forall>z \<in> set ?ys. ?f y \<le> ?f z"
      unfolding ys by auto
    then have least: "\<forall>z \<in> set ?xs. ?f y \<le> ?f z"
      by simp
    have "Max (set (map (\<lambda>r. similarity env r e) ?xs)) = similarity env y e"
    proof (rule Max_eqI)
      show "finite (set (map (\<lambda>r. similarity env r e) ?xs))"
        by simp
      show "v \<le> similarity env y e" if "v \<in> set (map (\<lambda>r. similarity env r e) ?xs)" for v
        using that least by (auto simp: similarity_def)
      show "similarity env y e \<in> set (map (\<lambda>r. similarity env r e) ?xs)"
        using y by (simp only: set_map) (rule imageI)
    qed
    moreover have "similarityScore_of ?rows = similarity env y e"
      unfolding ys by (simp add: similarityScore_of_def similarity_def)
    ultimately show ?thesis
      using False by (simp add: nearest_score_def Let_def)
  qed
  from call score show ?thesis
    by blast
qed

text \<open>
  C2. The gate compares with a strict \<open><\<close> (line 250). The score it compares is the
  similarity of the nearest stored row in scope, as the store returns it (0 when there is
  none). When this score is strictly below the threshold the message is accepted: after the
  SELECT the next call is the INSERT of its row with that score, and unless that call throws
  the row is in the table and the message joins the accepted list. When the score equals the
  threshold, and when it exceeds it, the message is rejected: it is counted as dropped, and
  after the SELECT no call is made and nothing is written for it.
\<close>

theorem threshold_comparison:
  assumes emb: "j < length embeddings"
    and ok: "\<not> db_fails env (length (calls w))"
    and pm: "process_message env data fb embeddings batch j l w = (res, w')"
  shows "(nearest_score env fb data (tables w (table_name data)) (embeddings ! j)
            < similarity_search_score_threshold data \<longrightarrow>
          calls w' = calls w
            @ [(DbSelect, True),
               (DbInsert (stored_record data (batch ! j) (embeddings ! j)
                  (nearest_score env fb data (tables w (table_name data)) (embeddings ! j))),
                \<not> db_fails env (Suc (length (calls w))))]
          \<and> (\<not> db_fails env (Suc (length (calls w))) \<longrightarrow>
               res = Inr (l\<lparr>nonDuplicateMessages := nonDuplicateMessages l @ [batch ! j]\<rparr>)
               \<and> tables w' (table_name data) = tables w (table_name data)
                    @ [stored_record data (batch ! j) (embeddings ! j)
                         (nearest_score env fb data (tables w (table_name data)) (embeddings ! j))]))
       \<and> (nearest_score env fb data (tables w (table_name data)) (embeddings ! j)
            = similarity_search_score_threshold data \<longrightarrow>
          res = Inr (l\<lparr>stats := (stats l)\<lparr>dropped := dropped (stats l) + 1\<rparr>\<rparr>)
          \<and> w' = record_call DbSelect True w)
       \<and> (similarity_search_score_threshold data
            < nearest_score env fb data (tables w (table_name data)) (embeddings ! j) \<longrightarrow>
          res = Inr (l\<lparr>stats := (stats l)\<lparr>dropped := dropped (stats l) + 1\<rparr>\<rparr>)
          \<and> w' = record_call DbSelect True w)"
proof -
  let ?w1 = "record_call DbSelect True w"
  from select_nearest_score [OF ok, of data fb "embeddings ! j"] obtain rows where
    sel: "dbClient_query_select env (table_name data) (whereConditions (prepare_conditions fb data))
         (paramIndex (prepare_conditions fb data))
         (queryParams (prepare_conditions fb data) @ [PVector (embeddings ! j)]) w = (Inr rows, ?w1)"
    and score: "similarityScore_of rows
         = nearest_score env fb data (tables w (table_name data)) (embeddings ! j)"
    by blast
  have c: "calls ?w1 = calls w @ [(DbSelect, True)]" "length (calls ?w1) = Suc (length (calls w))"
    by (simp_all add: record_call_def)
  note g = gate_after_select [OF emb sel pm, unfolded score c(2)]
  show ?thesis
    using g by (simp add: c(1))
qed

lemma example_nearest_score:
  "nearest_score example_graded_env [''topic'', ''subindustry'']
      (example_request\<lparr>similarity_search_score_threshold := t\<rparr>)
      (tables example_final_world ''messages'') [1, 1] = 3 / 4"
  by (simp add: nearest_score_def in_scope_def filterable_fields_def request_field_def column_def
      similarity_def example_graded_env_def example_env_def example_request_def
      example_final_world_def example_row_def stored_record_def msg_def)

theorem threshold_comparison_witness:
  "nearest_score example_graded_env [''topic'', ''subindustry''] example_request
      (tables example_final_world ''messages'') [1, 1] = 3 / 4
   \<and> fst (process_message example_graded_env example_request [''topic'', ''subindustry''] [[1, 1]]
          [msg ''m5'' ''C''] 0 example_locals example_final_world)
     = Inr (example_locals\<lparr>nonDuplicateMessages := [msg ''m5'' ''C'']\<rparr>)
   \<and> tables (snd (process_message example_graded_env example_request [''topic'', ''subindustry'']
          [[1, 1]] [msg ''m5'' ''C''] 0 example_locals example_final_world)) ''messages''
     = [example_row ''m1'' ''A'' [1, 0], example_row ''m3'' ''B'' [0, 1],
        stored_record example_request (msg ''m5'' ''C'') [1, 1] (3 / 4)]
   \<and> fst (process_message example_graded_env
          (example_request\<lparr>similarity_search_score_threshold := 3 / 4\<rparr>)
          [''topic'', ''subindustry''] [[1, 1]] [msg ''m5'' ''C''] 0 example_locals example_final_world)
     = Inr (example_locals\<lparr>stats := (stats example_locals)\<lparr>dropped := 2\<rparr>\<rparr>)
   \<and> fst (process_message example_graded_env
          (example_request\<lparr>similarity_search_score_threshold := 1 / 2\<rparr>)
          [''topic'', ''subindustry''] [[1, 1]] [msg ''m5'' ''C''] 0 example_locals example_final_world)
     = Inr (example_locals\<lparr>stats := (stats example_locals)\<lparr>dropped := 2\<rparr>\<rparr>)"
proof -
  let ?fb = "[''topic'', ''subindustry'']"
  let ?m = "[msg ''m5'' ''C'']"
  have j: "0 < length [[1, 1 :: real]]"
    by simp
  have ok: "\<not> db_fails example_graded_env (length (calls example_final_world))"
    and ok': "\<not> db_fails example_graded_env (Suc (length (calls example_final_world)))"
    by (simp_all add: example_graded_env_def example_env_def)
  have tn: "table_name (example_request\<lparr>similarity_search_score_threshold := t\<rparr>) = ''messages''"
    "table_name example_request = ''messages''" for t
    by (simp_all add: example_request_def)
  have n0: "nearest_score example_graded_env ?fb example_request
      (tables example_final_world ''messages'') [1, 1] = 3 / 4"
    using example_nearest_score [of "9 / 10"] by (simp add: example_request_def)
  have d: "dropped (stats example_locals) + 1 = 2"
    by (simp add: example_locals_def initial_locals_def example_request_def uniqueMessages_example
        length_example_messages)
  have nd: "nonDuplicateMessages example_locals @ [?m ! 0] = ?m"
    by (simp add: example_locals_def initial_locals_def)
  have lt: "(3 / 4 :: real) < similarity_search_score_threshold example_request"
    by (simp add: example_request_def)
  note a = threshold_comparison [where data = example_request and fb = ?fb and batch = ?m
      and l = example_locals, OF j ok prod.collapse [symmetric], unfolded tn nth_Cons_0 n0]
  have first: "fst (process_message example_graded_env example_request ?fb [[1, 1]] ?m 0
        example_locals example_final_world)
      = Inr (example_locals\<lparr>nonDuplicateMessages := ?m\<rparr>)"
    and tbl: "tables (snd (process_message example_graded_env example_request ?fb [[1, 1]] ?m 0
        example_locals example_final_world)) ''messages''
      = tables example_final_world ''messages''
          @ [stored_record example_request (msg ''m5'' ''C'') [1, 1] (3 / 4)]"
    using a lt ok' nd by simp_all
  have tbl': "tables (snd (process_message example_graded_env example_request ?fb [[1, 1]] ?m 0
        example_locals example_final_world)) ''messages''
      = [example_row ''m1'' ''A'' [1, 0], example_row ''m3'' ''B'' [0, 1],
         stored_record example_request (msg ''m5'' ''C'') [1, 1] (3 / 4)]"
    using tbl by (simp add: example_final_world_def)
  note b = threshold_comparison [where fb = ?fb and batch = ?m and l = example_locals
      and data = "example_request\<lparr>similarity_search_score_threshold := 3 / 4\<rparr>",
      OF j ok prod.collapse [symmetric], unfolded tn nth_Cons_0 example_nearest_score]
  have second: "fst (process_message example_graded_env
        (example_request\<lparr>similarity_search_score_threshold := 3 / 4\<rparr>) ?fb [[1, 1]] ?m 0
        example_locals example_final_world)
      = Inr (example_locals\<lparr>stats := (stats example_locals)\<lparr>dropped := 2\<rparr>\<rparr>)"
    using b d by simp
  note c = threshold_comparison [where fb = ?fb and batch = ?m and l = example_locals
      and data = "example_request\<lparr>similarity_search_score_threshold := 1 / 2\<rparr>",
      OF j ok prod.collapse [symmetric], unfolded tn nth_Cons_0 example_nearest_score]
  have third: "fst (process_message example_graded_env
        (example_request\<lparr>similarity_search_score_threshold := 1 / 2\<rparr>) ?fb [[1, 1]] ?m 0
        example_locals example_final_world)
      = Inr (example_locals\<lparr>stats := (stats example_locals)\<lparr>dropped := 2\<rparr>\<rparr>)"
    using c d by simp
  from n0 first tbl' second third show ?thesis
    by (intro conjI)
qed

lemma select_no_row:
  assumes ok: "\<not> db_fails env (length (calls w))"
    and none: "\<forall>r \<in> set (tables w (table_name data)). \<not> in_scope fb data r"
  shows "dbClient_query_select env (table_name data) (whereConditions (prepare_conditions fb data))
         (paramIndex (prepare_conditions fb data))
         (queryParams (prepare_conditions fb data) @ [PVector e]) w
       = (Inr [], record_call DbSelect True w)"
proof -
  let ?q = "prepare_conditions fb data"
  have "param_at (queryParams ?q @ [PVector e]) (paramIndex ?q) = Some (PVector e)"
    by (simp add: paramIndex_prepare param_at_last)
  moreover have "filter (\<lambda>r. list_all (satisfies (queryParams ?q @ [PVector e]) r) (whereConditions ?q))
      (tables w (table_name data)) = []"
    using none by (simp add: filter_empty_conv in_scope_where)
  ultimately have "similarity_select (cosine_distance env) (tables w (table_name data))
      (whereConditions ?q) (paramIndex ?q) (queryParams ?q @ [PVector e]) = Inr []"
    by (simp add: similarity_select_def)
  then show ?thesis
    using ok by (simp add: dbClient_query_select_def)
qed

text \<open>
  C8 (as amended). When no stored row is in scope, the SELECT returns no row and the score is
  0. The message is then accepted, with score 0 recorded, when the threshold is positive
  (and the INSERT call does not throw); with a threshold of 0 or less it is rejected, as
  \<open>0 < threshold\<close> fails.
\<close>

theorem no_neighbour_score_zero:
  assumes emb: "j < length embeddings"
    and ok: "\<not> db_fails env (length (calls w))"
    and none: "\<forall>r \<in> set (tables w (table_name data)). \<not> in_scope fb data r"
    and pm: "process_message env data fb embeddings batch j l w = (res, w')"
  shows "dbClient_query_select env (table_name data) (whereConditions (prepare_conditions fb data))
           (paramIndex (prepare_conditions fb data))
           (queryParams (prepare_conditions fb data) @ [PVector (embeddings ! j)]) w
         = (Inr [], record_call DbSelect True w)
       \<and> similarityScore_of [] = 0
       \<and> (0 < similarity_search_score_threshold data \<and> \<not> db_fails env (Suc (length (calls w))) \<longrightarrow>
            res = Inr (l\<lparr>nonDuplicateMessages := nonDuplicateMessages l @ [batch ! j]\<rparr>)
            \<and> tables w' (table_name data) = tables w (table_name data)
                 @ [stored_record data (batch ! j) (embeddings ! j) 0])
       \<and> (similarity_search_score_threshold data \<le> 0 \<longrightarrow>
            res = Inr (l\<lparr>stats := (stats l)\<lparr>dropped := dropped (stats l) + 1\<rparr>\<rparr>)
            \<and> tables w' = tables w)"
proof -
  let ?w1 = "record_call DbSelect True w"
  have sel: "dbClient_query_select env (table_name data) (whereConditions (prepare_conditions fb data))
           (paramIndex (prepare_conditions fb data))
           (queryParams (prepare_conditions fb data) @ [PVector (embeddings ! j)]) w
         = (Inr [], ?w1)"
    using ok none by (rule select_no_row)
  have z: "similarityScore_of [] = 0"
    by (simp add: similarityScore_of_def)
  note step = process_message_after_select [OF emb sel, of batch l]
  have acc: "res = Inr (l\<lparr>nonDuplicateMessages := nonDuplicateMessages l @ [batch ! j]\<rparr>)
            \<and> tables w' (table_name data) = tables w (table_name data)
                 @ [stored_record data (batch ! j) (embeddings ! j) 0]"
    if "0 < similarity_search_score_threshold data \<and> \<not> db_fails env (Suc (length (calls w)))"
  proof -
    have "\<not> db_fails env (length (calls ?w1))"
      using that by (simp add: record_call_def)
    then have "(res, w') = (Inr (l\<lparr>nonDuplicateMessages := nonDuplicateMessages l @ [batch ! j]\<rparr>),
      record_call (DbInsert (stored_record data (batch ! j) (embeddings ! j) 0)) True
        (?w1\<lparr>tables := (tables ?w1)(table_name data := tables ?w1 (table_name data)
            @ [stored_record data (batch ! j) (embeddings ! j) 0])\<rparr>))"
      using pm that step by (simp add: z insert_succeeds)
    then show ?thesis
      by (simp add: record_call_def)
  qed
  have rej: "res = Inr (l\<lparr>stats := (stats l)\<lparr>dropped := dropped (stats l) + 1\<rparr>\<rparr>)
            \<and> tables w' = tables w"
    if "similarity_search_score_threshold data \<le> 0"
  proof -
    have "(res, w') = (Inr (l\<lparr>stats := (stats l)\<lparr>dropped := dropped (stats l) + 1\<rparr>\<rparr>), ?w1)"
      using pm that step by (simp add: z)
    then show ?thesis
      by (simp add: record_call_def)
  qed
  show ?thesis
    using sel z acc rej by blast
qed

theorem no_neighbour_score_zero_witness:
  "\<not> in_scope [''topic'', ''subindustry''] example_request
       ((example_row ''m0'' ''A'' [1, 0])\<lparr>col_topic := ''weather''\<rparr>)
   \<and> fst (process_message example_env example_request [''topic'', ''subindustry''] [[1, 0]]
          [msg ''m1'' ''A''] 0 example_locals example_foreign_world)
     = Inr (example_locals\<lparr>nonDuplicateMessages := [msg ''m1'' ''A'']\<rparr>)
   \<and> fst (process_message example_env example_zero_request [''topic'', ''subindustry''] [[1, 0]]
          [msg ''m1'' ''A''] 0 example_locals example_foreign_world)
     = Inr (example_locals\<lparr>stats := (stats example_locals)\<lparr>dropped := 2\<rparr>\<rparr>)"
proof -
  have j: "0 < length [[1, 0 :: real]]"
    by simp
  have ok: "\<not> db_fails example_env (length (calls example_foreign_world))"
    by (simp add: example_env_def)
  have out: "\<not> in_scope [''topic'', ''subindustry''] example_request
       ((example_row ''m0'' ''A'' [1, 0])\<lparr>col_topic := ''weather''\<rparr>)"
    by (simp add: in_scope_def filterable_fields_def request_field_def column_def
        example_request_def)
  have out0: "\<not> in_scope [''topic'', ''subindustry''] example_zero_request
       ((example_row ''m0'' ''A'' [1, 0])\<lparr>col_topic := ''weather''\<rparr>)"
    by (simp add: in_scope_def filterable_fields_def request_field_def column_def
        example_request_def example_zero_request_def)
  have none: "\<forall>r \<in> set (tables example_foreign_world (table_name example_request)).
      \<not> in_scope [''topic'', ''subindustry''] example_request r"
    using out by (simp add: example_foreign_world_def example_request_def)
  have none0: "\<forall>r \<in> set (tables example_foreign_world (table_name example_zero_request)).
      \<not> in_scope [''topic'', ''subindustry''] example_zero_request r"
    using out0 by (simp add: example_foreign_world_def example_request_def example_zero_request_def)
  have a: "0 < similarity_search_score_threshold example_request
      \<and> \<not> db_fails example_env (Suc (length (calls example_foreign_world)))"
    by (simp add: example_request_def example_env_def)
  have "fst (process_message example_env example_request [''topic'', ''subindustry''] [[1, 0]]
          [msg ''m1'' ''A''] 0 example_locals example_foreign_world)
     = Inr (example_locals\<lparr>nonDuplicateMessages :=
          nonDuplicateMessages example_locals @ [[msg ''m1'' ''A''] ! 0]\<rparr>)"
    using no_neighbour_score_zero [OF j ok none prod.collapse [symmetric],
        of "[msg ''m1'' ''A'']" example_locals] a
    by blast
  then have first: "fst (process_message example_env example_request [''topic'', ''subindustry'']
          [[1, 0]] [msg ''m1'' ''A''] 0 example_locals example_foreign_world)
     = Inr (example_locals\<lparr>nonDuplicateMessages := [msg ''m1'' ''A'']\<rparr>)"
    by (simp add: example_locals_def initial_locals_def)
  have b: "similarity_search_score_threshold example_zero_request \<le> 0"
    by (simp add: example_zero_request_def)
  have "fst (process_message example_env example_zero_request [''topic'', ''subindustry''] [[1, 0]]
          [msg ''m1'' ''A''] 0 example_locals example_foreign_world)
     = Inr (example_locals\<lparr>stats := (stats example_locals)
          \<lparr>dropped := dropped (stats example_locals) + 1\<rparr>\<rparr>)"
    using no_neighbour_score_zero [OF j ok none0 prod.collapse [symmetric],
        of "[msg ''m1'' ''A'']" example_locals] b
    by blast
  then have second: "fst (process_message example_env example_zero_request
          [''topic'', ''subindustry''] [[1, 0]] [msg ''m1'' ''A''] 0 example_locals example_foreign_world)
     = Inr (example_locals\<lparr>stats := (stats example_locals)\<lparr>dropped := 2\<rparr>\<rparr>)"
    by (simp add: example_locals_def initial_locals_def example_request_def uniqueMessages_example
        length_example_messages)
  from out first second show ?thesis
    by (intro conjI)
qed

theorem no_neighbour_zero_threshold_counterexample:
  "tables example_world (table_name example_zero_request) = []
   \<and> similarity_search_score_threshold example_zero_request = 0
   \<and> processBatch example_env example_zero_request [''topic'', ''subindustry''] example_world
     = (Inr example_zero_response,
        example_world\<lparr>calls := [(DbConnect, True), (AiRun [''A'', ''B'', ''A!''], True),
           (DbSelect, True), (DbSelect, True), (DbSelect, True), (DbEnd, True)]\<rparr>)
   \<and> r_non_duplicate_messages (resp_data example_zero_response) = []"
  by (simp add: run_defs example_env_def example_request_def example_zero_request_def
      example_world_def uniqueMessages_example example_response_def example_zero_response_def
      msg_def example_embedding_def length_example_messages)

lemma processBatch_echo:
  assumes "processBatch env data fb w = (Inr resp, w')"
  shows "r_filter_by (resp_data resp) = fb"
proof -
  from assms obtain l where "resp = success_response data fb l"
    by (rule processBatch_success)
  then show ?thesis
    by (simp add: success_response_def Let_def)
qed

lemma fetch_ok:
  assumes "fetch env request w = (\<lparr>http_status = 200, body = ResultBody resp\<rparr>, w')"
  shows "\<exists>data. json request = Some data
           \<and> processBatch env data (resolved_filter_by data) w = (Inr resp, w')"
  using assms
  by (auto simp: fetch_def error_response_def split: if_splits option.splits prod.splits sum.splits)

text \<open>
  C6 (as amended). An absent \<open>filter_by\<close> resolves to \<open>["topic", "subindustry"]\<close>; a
  supplied list is used as it is. The resolved list is the one a successful response echoes,
  and it is empty exactly when the request supplies an empty list.
\<close>

theorem filter_by_resolution:
  "(filter_by data = None \<longrightarrow> resolved_filter_by data = [''topic'', ''subindustry''])
   \<and> (\<forall>fb. filter_by data = Some fb \<longrightarrow> resolved_filter_by data = fb)
   \<and> (resolved_filter_by data = [] \<longleftrightarrow> filter_by data = Some [])
   \<and> (\<forall>env request w resp w'.
         json request = Some data
         \<and> fetch env request w = (\<lparr>http_status = 200, body = ResultBody resp\<rparr>, w')
         \<longrightarrow> r_filter_by (resp_data resp) = resolved_filter_by data)"
proof (intro conjI allI impI)
  show "resolved_filter_by data = [''topic'', ''subindustry'']" if "filter_by data = None"
    using that by (simp add: resolved_filter_by_def)
  show "resolved_filter_by data = fb" if "filter_by data = Some fb" for fb
    using that by (simp add: resolved_filter_by_def)
  show "resolved_filter_by data = [] \<longleftrightarrow> filter_by data = Some []"
    by (simp add: resolved_filter_by_def split: option.splits)
  show "r_filter_by (resp_data resp) = resolved_filter_by data"
    if "json request = Some data
         \<and> fetch env request w = (\<lparr>http_status = 200, body = ResultBody resp\<rparr>, w')"
    for env request w resp w'
  proof -
    from that fetch_ok [of env request w resp w']
    have "processBatch env data (resolved_filter_by data) w = (Inr resp, w')"
      by auto
    then show ?thesis
      by (rule processBatch_echo)
  qed
qed

theorem filter_by_resolution_witness:
  "filter_by example_request = None
   \<and> resolved_filter_by example_request = [''topic'', ''subindustry'']
   \<and> fetch example_env example_http_request example_world
       = (\<lparr>http_status = 200, body = ResultBody example_response\<rparr>, example_final_world)
   \<and> r_filter_by (resp_data example_response) = resolved_filter_by example_request
   \<and> resolved_filter_by (example_request\<lparr>filter_by := Some [''job_id'']\<rparr>) = [''job_id'']"
proof -
  note t = filter_by_resolution [of example_request]
  note t' = filter_by_resolution [of "example_request\<lparr>filter_by := Some [''job_id'']\<rparr>"]
  have n: "filter_by example_request = None"
    by (simp add: example_request_def)
  have j: "json example_http_request = Some example_request"
    by (simp add: example_http_request_def)
  have a: "resolved_filter_by example_request = [''topic'', ''subindustry'']"
    using t n by blast
  have b: "r_filter_by (resp_data example_response) = resolved_filter_by example_request"
    using t j example_fetch by blast
  have "filter_by (example_request\<lparr>filter_by := Some [''job_id'']\<rparr>) = Some [''job_id'']"
    by simp
  then have c: "resolved_filter_by (example_request\<lparr>filter_by := Some [''job_id'']\<rparr>) = [''job_id'']"
    using t' by blast
  from n a example_fetch b c show ?thesis
    by (intro conjI)
qed

theorem filter_by_empty_counterexample:
  "resolved_filter_by (example_request\<lparr>filter_by := Some []\<rparr>) = []
   \<and> fst (fetch example_env (example_http_request\<lparr>json := Some (example_request\<lparr>filter_by := Some []\<rparr>)\<rparr>)
          example_world)
     = \<lparr>http_status = 200,
        body = ResultBody (example_response\<lparr>resp_data := (resp_data example_response)
                 \<lparr>r_filter_by := []\<rparr>\<rparr>)\<rparr>"
  by (simp add: fetch_def authorized_def resolved_filter_by_def example_http_request_def
      run_defs example_env_def example_request_def
      example_world_def uniqueMessages_example example_response_def
      msg_def example_embedding_def length_example_messages)

end
